theory Spec2Isabelle
  imports Main "HOL-Library.AList"
begin

section \<open>JavaScript building blocks\<close>

text \<open>
  A JavaScript \<^verbatim>\<open>Map\<close> keeps its entries in insertion order, one entry per key:
  \<^verbatim>\<open>set\<close> on a present key replaces the value where it stands, on an absent key it
  appends; \<^verbatim>\<open>delete\<close> removes the entry and answers whether there was one. It is modelled
  as an association list; the list order is the order in which \<^verbatim>\<open>forEach\<close> and
  \<^verbatim>\<open>for ... of\<close> visit the entries.
\<close>

type_synonym ('k, 'v) jsmap = "('k \<times> 'v) list"

definition Map_get :: "('k, 'v) jsmap \<Rightarrow> 'k \<Rightarrow> 'v option" where
  "Map_get m k = map_of m k"

definition Map_has :: "('k, 'v) jsmap \<Rightarrow> 'k \<Rightarrow> bool" where
  "Map_has m k = (map_of m k \<noteq> None)"

definition Map_set :: "('k, 'v) jsmap \<Rightarrow> 'k \<Rightarrow> 'v \<Rightarrow> ('k, 'v) jsmap" where
  "Map_set m k v = AList.update k v m"

definition Map_delete :: "('k, 'v) jsmap \<Rightarrow> 'k \<Rightarrow> bool \<times> ('k, 'v) jsmap" where
  "Map_delete m k = (Map_has m k, AList.delete k m)"

definition Map_keys :: "('k, 'v) jsmap \<Rightarrow> 'k list" where
  "Map_keys m = map fst m"

text \<open>
  \<^verbatim>\<open>String.prototype.trim\<close>: strips white space at both ends. The characters listed are
  the ASCII members of JavaScript's white space and line terminator classes.
\<close>

definition js_space :: "char \<Rightarrow> bool" where
  "js_space c = (c \<in> set [CHR '' '', CHR 0x09, CHR 0x0A, CHR 0x0B, CHR 0x0C, CHR 0x0D])"

definition js_trim :: "string \<Rightarrow> string" where
  "js_trim s = rev (dropWhile js_space (rev (dropWhile js_space s)))"

text \<open>
  \<^verbatim>\<open>req.body.email?.trim()\<close>: an absent field stays absent. A string is falsy exactly
  when it is empty, so \<^verbatim>\<open>!email\<close> holds for an absent and for an empty value.
\<close>

definition opt_trim :: "string option \<Rightarrow> string option" where
  "opt_trim e = map_option js_trim e"

definition falsy :: "string option \<Rightarrow> bool" where
  "falsy v = (case v of None \<Rightarrow> True | Some s \<Rightarrow> s = [])"

section \<open>Data model\<close>

record StockItem =
  item_id :: string
  display_name :: string
  quantity :: int

record ItemInfo =
  info_item_id :: string
  info_icon :: string

record WeatherEvent =
  weather_id :: string
  weather_name :: string
  active :: bool
  duration :: int

record WeatherData =
  weather :: "WeatherEvent list option"
  discord_invite :: string

text \<open>
  The stock payload is an object whose properties are looked up by category name;
  \<^verbatim>\<open>Array.isArray(data[category])\<close> holds exactly where the map below is defined.
\<close>

type_synonym StockData = "string \<rightharpoonup> StockItem list"

record PendingVerification =
  token :: string
  timestamp :: int

record VerifiedEntry =
  verified :: bool
  verified_at :: int

text \<open>
  \<^verbatim>\<open>JSON.stringify\<close> is applied to either feed's parsed payload. The serialised form is
  only ever compared with \<^verbatim>\<open>!==\<close>, so its type is left open (\<open>'j\<close>) and the
  serialiser is a parameter of the polling functions. A parsed payload is represented by
  its content, with the fields the program reads.
\<close>

datatype payload = StockPayload StockData | WeatherPayload WeatherData

record 'j state =
  latestStockDataJSON :: "'j option"
  latestStockDataObj :: "StockData option"
  latestWeatherDataJSON :: "'j option"
  latestWeatherDataObj :: "WeatherData option"
  itemInfo :: "ItemInfo list"
  pendingVerifications :: "(string, PendingVerification) jsmap"
  verifiedEmails :: "(string, VerifiedEntry) jsmap"
  subscriptions :: "(string, string set) jsmap"

definition initial_state :: "'j state" where
  "initial_state =
     \<lparr> latestStockDataJSON = None, latestStockDataObj = None,
       latestWeatherDataJSON = None, latestWeatherDataObj = None,
       itemInfo = [], pendingVerifications = [], verifiedEmails = [],
       subscriptions = [] \<rparr>"

subsection \<open>Mail, log lines and HTTP responses\<close>

text \<open>
  The HTML bodies are string templates; a body is represented by the values interpolated
  into its template. A log line is represented by the event it reports and the values
  interpolated into it (the time stamp prefix of \<^verbatim>\<open>broadcastLog\<close> is left out).
\<close>

record StockRow =
  row_icon :: string
  row_name :: string
  row_qty :: int

datatype duration_text = Minutes int | UnknownDuration

datatype html =
    VerificationHtml string string
  | StockHtml "StockRow list" string
  | WeatherHtml string duration_text string string
  | TestHtml

datatype subject = VerifySubject | StockSubject | WeatherSubject string | TestSubject

record Email =
  mail_to :: string
  mail_subject :: subject
  mail_html :: html

datatype log_event =
    LogItemInfoLoaded nat
  | LogItemInfoError string
  | LogStockChanged
  | LogStockNoChange
  | LogStockError string
  | LogWeatherChanged
  | LogNewWeather string
  | LogWeatherEnded string
  | LogNoNewWeather
  | LogWeatherNoChange
  | LogWeatherError string
  | LogWeatherPolling nat nat
  | LogExpired string
  | LogEmailRequired
  | LogAlreadySubscribed string
  | LogProcessing string
  | LogSmtpError string
  | LogSmtpVerified
  | LogVerificationMailError string string
  | LogVerificationMailSent string string
  | LogInvalidLink
  | LogVerifyAttempt "string option"
  | LogVerifyFailed "string option"
  | LogEmailVerified string
  | LogSubscribeAttempt "string option" nat
  | LogSubscribeInvalid "string option"
  | LogNotVerified string
  | LogNewSubscription string nat
  | LogUnsubAttempt "string option"
  | LogUnsubscribed string
  | LogUnsubNotFound "string option"
  | LogMailError string string
  | LogMailSent string string
  | LogTestEmail string

datatype response =
    Json nat bool string
  | JsonVerified nat bool
  | JsonItems "ItemInfo list"
  | Text nat string
  | RedirectVerified string
  | RedirectUnsubscribed
  | RedirectSubscribed
  | RedirectError string

text \<open>
  The mail relay is outside the program: \<open>smtp_verify\<close> is the error of
  \<^verbatim>\<open>transporter.verify\<close> (if any), \<open>smtp_sendMail\<close> the error or the
  \<^verbatim>\<open>info.response\<close> that \<^verbatim>\<open>transporter.sendMail\<close> hands to its callback.
\<close>

record transporter =
  smtp_verify :: "string option"
  smtp_sendMail :: "Email \<Rightarrow> string + string"

datatype 'a fetched = FetchFailed string | Fetched 'a

record 'j result =
  new_state :: "'j state"
  mails :: "Email list"
  logs :: "log_event list"

record 'j reply = "'j result" +
  response :: response

section \<open>The polling variant (stock-ws-emailer.js)\<close>

text \<open>
  The file holds the polling script twice. The model follows the first copy; the second
  differs in log lines, in the missing \<^verbatim>\<open>transporter.verify\<close> step and in fewer
  checks for an absent email. Each timer callback and each HTTP handler is one function
  from the state before to the state after, together with the mails handed to the relay,
  the log lines and, for a handler, the response. The callbacks of the mail relay only
  write log lines; their lines are appended to those of the call that sent the mail.
\<close>

subsection \<open>Change detection\<close>

definition hasDataChanged :: "'j option \<Rightarrow> 'j option \<Rightarrow> bool" where
  "hasDataChanged oldJSON newJSON = (oldJSON \<noteq> newJSON)"

subsection \<open>Sending mail\<close>

definition sendEmail ::
  "transporter \<Rightarrow> subject \<Rightarrow> html \<Rightarrow> string \<Rightarrow> Email \<times> log_event" where
  "sendEmail tr subj htmlBody recipientEmail =
     (let mailOptions = \<lparr> mail_to = recipientEmail, mail_subject = subj,
                           mail_html = htmlBody \<rparr>
      in (mailOptions,
          (case smtp_sendMail tr mailOptions of
             Inl err \<Rightarrow> LogMailError recipientEmail err
           | Inr info \<Rightarrow> LogMailSent recipientEmail info)))"

text \<open>
  \<^verbatim>\<open>sendVerificationEmail\<close> stores the pending entry first and then talks to the relay;
  the relay's callbacks run after the caller has returned and only write log lines.
  The token of \<^verbatim>\<open>crypto.randomBytes\<close> and the clock reading are inputs.
\<close>

definition sendVerificationEmail ::
  "transporter \<Rightarrow> 'j state \<Rightarrow> string \<Rightarrow> string \<Rightarrow> int \<Rightarrow> 'j result" where
  "sendVerificationEmail tr s email tok now =
     (let s' = s\<lparr> pendingVerifications :=
                    Map_set (pendingVerifications s) email
                      \<lparr> token = tok, timestamp = now \<rparr> \<rparr>;
          mailOptions = \<lparr> mail_to = email, mail_subject = VerifySubject,
                           mail_html = VerificationHtml email tok \<rparr>
      in (case smtp_verify tr of
            Some err \<Rightarrow> \<lparr> new_state = s', mails = [], logs = [LogSmtpError err] \<rparr>
          | None \<Rightarrow>
              \<lparr> new_state = s', mails = [mailOptions],
                logs = [LogSmtpVerified,
                        (case smtp_sendMail tr mailOptions of
                           Inl err \<Rightarrow> LogVerificationMailError email err
                         | Inr info \<Rightarrow> LogVerificationMailSent email info)] \<rparr>))"

subsection \<open>Composing the stock mail\<close>

definition stock_categories :: "string list" where
  "stock_categories =
     [''seed_stock'', ''gear_stock'', ''egg_stock'', ''cosmetic_stock'', ''event_stock'']"

text \<open>The \<^verbatim>\<open>forEach\<close> over the category names, pushing each array onto the accumulator.\<close>

definition allStockItems :: "string list \<Rightarrow> StockData \<Rightarrow> StockItem list" where
  "allStockItems categories data =
     foldl (\<lambda>acc category.
              case data category of Some items \<Rightarrow> acc @ items | None \<Rightarrow> acc)
           [] categories"

definition stockRow :: "(string \<Rightarrow> string) \<Rightarrow> ItemInfo list \<Rightarrow> StockItem \<Rightarrow> StockRow" where
  "stockRow fallbackIcon info item =
     (let name = (if display_name item \<noteq> [] then display_name item
                  else if item_id item \<noteq> [] then item_id item else ''Unknown'');
          qty = (if quantity item \<noteq> 0 then quantity item else 0);
          itemData = find (\<lambda>i. info_item_id i = item_id item) info;
          iconUrl = (case itemData of
                       Some d \<Rightarrow> if info_icon d \<noteq> [] then info_icon d
                                 else fallbackIcon (item_id item)
                     | None \<Rightarrow> fallbackIcon (item_id item))
      in \<lparr> row_icon = iconUrl, row_name = name, row_qty = qty \<rparr>)"

definition imageUrl :: "string \<Rightarrow> string" where
  "imageUrl i = ''https://image.joshlei.com/'' @ i @ ''.png''"

definition buildStockHtmlEmail :: "'j state \<Rightarrow> StockData \<Rightarrow> string \<Rightarrow> html option" where
  "buildStockHtmlEmail s data recipientEmail =
     (case Map_get (subscriptions s) recipientEmail of
        None \<Rightarrow> None
      | Some userSelections \<Rightarrow>
          (let inStockItems =
                 filter (\<lambda>item. item_id item \<in> userSelections \<and> quantity item > 0)
                        (allStockItems stock_categories data)
           in if length inStockItems > 0
              then Some (StockHtml (map (stockRow imageUrl (itemInfo s)) inStockItems)
                                   recipientEmail)
              else None))"

subsection \<open>Composing the weather mail\<close>

definition eventTitle :: "WeatherEvent \<Rightarrow> string" where
  "eventTitle ev =
     (if weather_name ev \<noteq> [] then weather_name ev
      else if weather_id ev \<noteq> [] then weather_id ev else ''Unknown'')"

definition buildWeatherHtmlEmail :: "WeatherEvent \<Rightarrow> string \<Rightarrow> string \<Rightarrow> html" where
  "buildWeatherHtmlEmail weatherEvent discordInvite recipientEmail =
     WeatherHtml (eventTitle weatherEvent)
       (if duration weatherEvent \<noteq> 0 then Minutes (duration weatherEvent div 60)
        else UnknownDuration)
       discordInvite recipientEmail"

subsection \<open>Polling the stock feed\<close>

definition fetchItemInfo :: "'j state \<Rightarrow> ItemInfo list fetched \<Rightarrow> 'j result" where
  "fetchItemInfo s r =
     (case r of
        Fetched items \<Rightarrow>
          (let info = filter (\<lambda>i. info_item_id i \<noteq> []) items
           in \<lparr> new_state = s\<lparr> itemInfo := info \<rparr>, mails = [],
                logs = [LogItemInfoLoaded (length info)] \<rparr>)
      | FetchFailed err \<Rightarrow>
          \<lparr> new_state = s\<lparr> itemInfo := [] \<rparr>, mails = [], logs = [LogItemInfoError err] \<rparr>)"

text \<open>
  The fan-out over \<^verbatim>\<open>subscriptions.forEach\<close>: one composer call per entry, and one
  \<^verbatim>\<open>sendEmail\<close> for each body that is not \<^verbatim>\<open>null\<close>.
\<close>

definition stockFanOut ::
  "transporter \<Rightarrow> 'j state \<Rightarrow> StockData \<Rightarrow> (Email \<times> log_event) list" where
  "stockFanOut tr s data =
     concat (map (\<lambda>(email, selections).
                    case buildStockHtmlEmail s data email of
                      None \<Rightarrow> []
                    | Some body \<Rightarrow> [sendEmail tr StockSubject body email])
                 (subscriptions s))"

text \<open>
  The poll continues after the fetch has returned. The item catalogue is fetched first
  when it is empty (\<open>infoResp\<close> is what that fetch returns); the poll is taken as one
  step, although other handlers may run while it waits for the catalogue.
\<close>

definition pollStockAPI ::
  "(payload \<Rightarrow> 'j) \<Rightarrow> transporter \<Rightarrow> 'j state \<Rightarrow> StockData fetched \<Rightarrow>
   ItemInfo list fetched \<Rightarrow> 'j result" where
  "pollStockAPI stringify tr s resp infoResp =
     (case resp of
        FetchFailed err \<Rightarrow> \<lparr> new_state = s, mails = [], logs = [LogStockError err] \<rparr>
      | Fetched data \<Rightarrow>
          (let newDataJSON = stringify (StockPayload data)
           in if hasDataChanged (latestStockDataJSON s) (Some newDataJSON)
              then
                (let s1 = s\<lparr> latestStockDataJSON := Some newDataJSON,
                              latestStockDataObj := Some data \<rparr>;
                     r = (if itemInfo s1 = [] then fetchItemInfo s1 infoResp
                          else \<lparr> new_state = s1, mails = [], logs = [] \<rparr>);
                     out = stockFanOut tr (new_state r) data
                 in \<lparr> new_state = new_state r, mails = map fst out,
                      logs = LogStockChanged # logs r @ map snd out \<rparr>)
              else \<lparr> new_state = s, mails = [], logs = [LogStockNoChange] \<rparr>))"

subsection \<open>Polling the weather feed\<close>

text \<open>\<^verbatim>\<open>data.weather?.find(w => w.active)\<close>: the first active event, if any.\<close>

definition activeEventOf :: "WeatherData \<Rightarrow> WeatherEvent option" where
  "activeEventOf data =
     (case weather data of None \<Rightarrow> None | Some ws \<Rightarrow> find active ws)"

definition weatherFanOut ::
  "transporter \<Rightarrow> 'j state \<Rightarrow> subject \<Rightarrow> WeatherEvent \<Rightarrow> string \<Rightarrow>
   (Email \<times> log_event) list" where
  "weatherFanOut tr s subj activeEvent discordInvite =
     map (\<lambda>(email, selections).
            sendEmail tr subj (buildWeatherHtmlEmail activeEvent discordInvite email) email)
         (subscriptions s)"

definition pollWeatherAPI ::
  "(payload \<Rightarrow> 'j) \<Rightarrow> transporter \<Rightarrow> 'j state \<Rightarrow> WeatherData fetched \<Rightarrow> 'j result" where
  "pollWeatherAPI stringify tr s resp =
     (case resp of
        FetchFailed err \<Rightarrow> \<lparr> new_state = s, mails = [], logs = [LogWeatherError err] \<rparr>
      | Fetched data \<Rightarrow>
          (let newDataJSON = stringify (WeatherPayload data)
           in if hasDataChanged (latestWeatherDataJSON s) (Some newDataJSON)
              then
                (let activeEvent = activeEventOf data;
                     prevActiveEvent =
                       (case latestWeatherDataObj s of
                          None \<Rightarrow> None | Some prev \<Rightarrow> activeEventOf prev);
                     s' = s\<lparr> latestWeatherDataJSON := Some newDataJSON,
                              latestWeatherDataObj := Some data \<rparr>
                 in (case activeEvent of
                       Some ev \<Rightarrow>
                         if (case prevActiveEvent of
                               None \<Rightarrow> True
                             | Some p \<Rightarrow> weather_id ev \<noteq> weather_id p)
                         then
                           (let out = weatherFanOut tr s (WeatherSubject (eventTitle ev))
                                        ev (discord_invite data)
                            in \<lparr> new_state = s', mails = map fst out,
                                 logs = [LogWeatherChanged, LogNewWeather (weather_name ev)]
                                        @ map snd out \<rparr>)
                         else \<lparr> new_state = s', mails = [],
                                logs = [LogWeatherChanged, LogNoNewWeather] \<rparr>
                     | None \<Rightarrow>
                         (case prevActiveEvent of
                            Some p \<Rightarrow>
                              \<lparr> new_state = s', mails = [],
                                logs = [LogWeatherChanged, LogWeatherEnded (weather_name p)] \<rparr>
                          | None \<Rightarrow>
                              \<lparr> new_state = s', mails = [],
                                logs = [LogWeatherChanged, LogNoNewWeather] \<rparr>)))
              else \<lparr> new_state = s, mails = [], logs = [LogWeatherNoChange] \<rparr>))"

subsection \<open>The hourly expiry sweep\<close>

definition expirationTime :: int where
  "expirationTime = 24 * 60 * 60 * 1000"

definition sweepInterval :: int where
  "sweepInterval = 60 * 60 * 1000"

text \<open>
  The \<^verbatim>\<open>for ... of\<close> loop over the pending map: the entries visited are those present
  when the loop starts, each deletion acting on the map as it stands.
\<close>

definition sweepPending ::
  "int \<Rightarrow> (string, PendingVerification) jsmap \<Rightarrow>
   (string, PendingVerification) jsmap \<times> log_event list" where
  "sweepPending now pending =
     fold (\<lambda>(email, pv) (m, l).
             if now - timestamp pv > expirationTime
             then (snd (Map_delete m email), l @ [LogExpired email])
             else (m, l))
          pending (pending, [])"

definition expirySweep :: "'j state \<Rightarrow> int \<Rightarrow> 'j result" where
  "expirySweep s now =
     (let (pending', l) = sweepPending now (pendingVerifications s)
      in \<lparr> new_state = s\<lparr> pendingVerifications := pending' \<rparr>, mails = [], logs = l \<rparr>)"

subsection \<open>HTTP handlers\<close>

definition reply ::
  "'j state \<Rightarrow> Email list \<Rightarrow> log_event list \<Rightarrow> response \<Rightarrow> 'j reply" where
  "reply s ms ls r = \<lparr> new_state = s, mails = ms, logs = ls, response = r \<rparr>"

definition check_verification :: "'j state \<Rightarrow> string option \<Rightarrow> 'j reply" where
  "check_verification s rawEmail =
     (let email = opt_trim rawEmail
      in if falsy email then reply s [] [] (JsonVerified 400 False)
         else reply s [] [] (JsonVerified 200 (Map_has (verifiedEmails s) (the email))))"

definition request_verification ::
  "transporter \<Rightarrow> 'j state \<Rightarrow> string option \<Rightarrow> string \<Rightarrow> int \<Rightarrow> 'j reply" where
  "request_verification tr s rawEmail tok now =
     (let email = opt_trim rawEmail
      in if falsy email
         then reply s [] [LogEmailRequired] (Json 400 False ''Email is required.'')
         else if Map_has (subscriptions s) (the email)
         then reply s [] [LogAlreadySubscribed (the email)]
                (Json 400 False ''Email is already subscribed.'')
         else
           (let r = sendVerificationEmail tr s (the email) tok now
            in reply (new_state r) (mails r) (LogProcessing (the email) # logs r)
                 (Json 200 True ''Verification email sent. Please check your inbox.'')))"

definition verify ::
  "'j state \<Rightarrow> string option \<Rightarrow> string option \<Rightarrow> int \<Rightarrow> 'j reply" where
  "verify s email tok now =
     (if falsy email \<or> falsy tok
      then reply s [] [LogInvalidLink] (Text 400 ''Invalid verification link.'')
      else
        (case Map_get (pendingVerifications s) (the email) of
           None \<Rightarrow> reply s [] [LogVerifyFailed email]
                     (Text 400 ''Invalid or expired verification link.'')
         | Some verification \<Rightarrow>
             if token verification \<noteq> the tok
             then reply s [] [LogVerifyFailed email]
                    (Text 400 ''Invalid or expired verification link.'')
             else reply
                    (s\<lparr> pendingVerifications :=
                          snd (Map_delete (pendingVerifications s) (the email)),
                        verifiedEmails :=
                          Map_set (verifiedEmails s) (the email)
                            \<lparr> verified = True, verified_at = now \<rparr> \<rparr>)
                    [] [LogEmailVerified (the email)] (RedirectVerified (the email))))"

text \<open>
  \<^verbatim>\<open>req.body.items\<close> is an array, a single value or absent;
  \<^verbatim>\<open>[req.body.items].filter(Boolean)\<close> keeps a single value unless it is falsy.
\<close>

datatype items_field = ItemsArray "string list" | ItemsValue string | ItemsAbsent

definition bodyItems :: "items_field \<Rightarrow> string list" where
  "bodyItems f =
     (case f of
        ItemsArray xs \<Rightarrow> xs
      | ItemsValue x \<Rightarrow> filter (\<lambda>i. i \<noteq> []) [x]
      | ItemsAbsent \<Rightarrow> [])"

definition subscribe :: "'j state \<Rightarrow> string option \<Rightarrow> items_field \<Rightarrow> 'j reply" where
  "subscribe s rawEmail rawItems =
     (let email = opt_trim rawEmail; items = bodyItems rawItems
      in if falsy email \<or> length items = 0
         then reply s [] [LogSubscribeInvalid email] (Json 400 False ''Invalid input'')
         else if \<not> Map_has (verifiedEmails s) (the email)
         then reply s [] [LogNotVerified (the email)] (Json 400 False ''Email not verified'')
         else reply (s\<lparr> subscriptions := Map_set (subscriptions s) (the email) (set items) \<rparr>)
                [] [LogNewSubscription (the email) (length items)]
                (Json 200 True ''Subscription successful!''))"

definition unsub :: "'j state \<Rightarrow> string option \<Rightarrow> 'j reply" where
  "unsub s rawEmail =
     (let email = opt_trim rawEmail
      in if falsy email
         then reply s [] [LogEmailRequired] (Text 400 ''Email is required.'')
         else
           (let (deleted, subs') = Map_delete (subscriptions s) (the email)
            in if deleted
               then reply (s\<lparr> subscriptions := subs',
                              verifiedEmails :=
                                snd (Map_delete (verifiedEmails s) (the email)) \<rparr>)
                      [] [LogUnsubscribed (the email)] RedirectUnsubscribed
               else reply (s\<lparr> subscriptions := subs' \<rparr>) [] [LogUnsubNotFound email]
                      (Text 200 ''Email not found in subscriptions.'')))"

definition refresh_items :: "'j state \<Rightarrow> ItemInfo list fetched \<Rightarrow> 'j reply" where
  "refresh_items s infoResp =
     (let r = fetchItemInfo s infoResp
      in reply (new_state r) (mails r) (logs r) (JsonItems (itemInfo (new_state r))))"

definition test_email :: "transporter \<Rightarrow> 'j state \<Rightarrow> string option \<Rightarrow> 'j reply" where
  "test_email tr s rawEmail =
     (let testEmail = (if falsy (opt_trim rawEmail) then ''test@example.com''
                       else the (opt_trim rawEmail));
          (m, l) = sendEmail tr TestSubject TestHtml testEmail
      in reply s [m] [LogTestEmail testEmail, l] (Json 200 True (''Test email sent to '' @ testEmail)))"

subsection \<open>Runs of the process\<close>

text \<open>
  The process is a single event loop: timer ticks and HTTP requests are handled one at a
  time. An event carries what the outside world supplies to its handler (fetched payloads,
  request fields, the random token, the clock reading).
\<close>

datatype event =
    PollStock "StockData fetched" "ItemInfo list fetched"
  | PollWeather "WeatherData fetched"
  | ExpirySweep int
  | LoadItemInfo "ItemInfo list fetched"
  | GetCheckVerification "string option"
  | PostRequestVerification "string option" string int
  | GetVerify "string option" "string option" int
  | PostSubscribe "string option" items_field
  | GetUnsub "string option"
  | GetRefreshItems "ItemInfo list fetched"
  | GetTestEmail "string option"

definition step ::
  "(payload \<Rightarrow> 'j) \<Rightarrow> transporter \<Rightarrow> 'j state \<Rightarrow> event \<Rightarrow> 'j state" where
  "step stringify tr s ev =
     (case ev of
        PollStock resp infoResp \<Rightarrow> new_state (pollStockAPI stringify tr s resp infoResp)
      | PollWeather resp \<Rightarrow> new_state (pollWeatherAPI stringify tr s resp)
      | ExpirySweep now \<Rightarrow> new_state (expirySweep s now)
      | LoadItemInfo infoResp \<Rightarrow> new_state (fetchItemInfo s infoResp)
      | GetCheckVerification rawEmail \<Rightarrow> new_state (check_verification s rawEmail)
      | PostRequestVerification rawEmail tok now \<Rightarrow>
          new_state (request_verification tr s rawEmail tok now)
      | GetVerify email tok now \<Rightarrow> new_state (verify s email tok now)
      | PostSubscribe rawEmail rawItems \<Rightarrow> new_state (subscribe s rawEmail rawItems)
      | GetUnsub rawEmail \<Rightarrow> new_state (unsub s rawEmail)
      | GetRefreshItems infoResp \<Rightarrow> new_state (refresh_items s infoResp)
      | GetTestEmail rawEmail \<Rightarrow> new_state (test_email tr s rawEmail))"

definition run ::
  "(payload \<Rightarrow> 'j) \<Rightarrow> transporter \<Rightarrow> 'j state \<Rightarrow> event list \<Rightarrow> 'j state" where
  "run stringify tr s evs = foldl (step stringify tr) s evs"

section \<open>The WebSocket variant\<close>

text \<open>
  The second script of the repository receives the stock over a WebSocket and polls the
  weather only. It declares the same variables except \<^verbatim>\<open>verifiedEmails\<close>; its
  functions are modelled on the same state record and never read or write that field.
  Its expiry sweep is the loop of \<open>expirySweep\<close> with a differently worded log line.
  The functions modelled are the composer, the message handler, the weather poll and the
  verify, subscribe and unsubscribe handlers.
\<close>

definition stock_categories_ws :: "string list" where
  "stock_categories_ws =
     [''seed_stock'', ''gear_stock'', ''egg_stock'', ''cosmetic_stock'', ''eventshop_stock'']"

definition imageUrl_ws :: "string \<Rightarrow> string" where
  "imageUrl_ws i = ''https://api.joshlei.com/v2/growagarden/image/'' @ i"

definition allStockItems_ws :: "string list \<Rightarrow> StockData \<Rightarrow> StockItem list" where
  "allStockItems_ws categories data =
     foldl (\<lambda>acc category.
              case data category of
                Some items \<Rightarrow> acc @ filter (\<lambda>item. item_id item \<noteq> []) items
              | None \<Rightarrow> acc)
           [] categories"

definition buildStockHtmlEmail_ws :: "'j state \<Rightarrow> StockData \<Rightarrow> string \<Rightarrow> html option" where
  "buildStockHtmlEmail_ws s data recipientEmail =
     (case Map_get (subscriptions s) recipientEmail of
        None \<Rightarrow> None
      | Some userSelections \<Rightarrow>
          (let inStockItems =
                 filter (\<lambda>item. item_id item \<in> userSelections \<and> quantity item > 0)
                        (allStockItems_ws stock_categories_ws data);
               hasItems = (length inStockItems > 0);
               listed = filter (\<lambda>item. item_id item \<noteq> []) inStockItems
           in if \<not> hasItems then None
              else Some (StockHtml (map (stockRow imageUrl_ws (itemInfo s)) listed)
                                   recipientEmail)))"

text \<open>
  The \<^verbatim>\<open>message\<close> handler of the socket serialises the parsed message, then drops the
  items without \<^verbatim>\<open>item_id\<close> from the five categories of the parsed object in place,
  and stores and fans out that object. A message that does not parse is \<open>FetchFailed\<close>.
\<close>

definition stripItems :: "string list \<Rightarrow> StockData \<Rightarrow> StockData" where
  "stripItems categories data =
     fold (\<lambda>category d.
             case d category of
               Some items \<Rightarrow> d(category \<mapsto> filter (\<lambda>item. item_id item \<noteq> []) items)
             | None \<Rightarrow> d)
          categories data"

definition stockFanOut_ws ::
  "transporter \<Rightarrow> 'j state \<Rightarrow> StockData \<Rightarrow> (Email \<times> log_event) list" where
  "stockFanOut_ws tr s data =
     concat (map (\<lambda>(email, selections).
                    case buildStockHtmlEmail_ws s data email of
                      None \<Rightarrow> []
                    | Some body \<Rightarrow> [sendEmail tr StockSubject body email])
                 (subscriptions s))"

definition onMessage ::
  "(payload \<Rightarrow> 'j) \<Rightarrow> transporter \<Rightarrow> 'j state \<Rightarrow> StockData fetched \<Rightarrow> 'j result" where
  "onMessage stringify tr s msg =
     (case msg of
        FetchFailed err \<Rightarrow> \<lparr> new_state = s, mails = [], logs = [LogStockError err] \<rparr>
      | Fetched parsed \<Rightarrow>
          (let newDataJSON = stringify (StockPayload parsed);
               newData = stripItems stock_categories_ws parsed
           in if hasDataChanged (latestStockDataJSON s) (Some newDataJSON)
              then
                (let s' = s\<lparr> latestStockDataJSON := Some newDataJSON,
                              latestStockDataObj := Some newData \<rparr>;
                     out = stockFanOut_ws tr s' newData
                 in \<lparr> new_state = s', mails = map fst out,
                      logs = LogStockChanged # map snd out \<rparr>)
              else \<lparr> new_state = s, mails = [], logs = [LogStockNoChange] \<rparr>))"

text \<open>
  \<^verbatim>\<open>data.weather.find(...)\<close> without optional chaining: a payload without
  \<^verbatim>\<open>weather\<close> raises a TypeError, which the \<^verbatim>\<open>catch\<close> block logs; nothing was
  assigned or sent before the raise. The \<^verbatim>\<open>catch\<close> block schedules a retry (a later
  poll) while attempts remain; \<open>retry_in\<close> is its delay in milliseconds.
\<close>

record 'j poll_result = "'j result" +
  retry_in :: "int option"

definition poll_failed ::
  "'j state \<Rightarrow> log_event list \<Rightarrow> nat \<Rightarrow> nat \<Rightarrow> 'j poll_result" where
  "poll_failed s ls attempt maxAttempts =
     \<lparr> new_state = s, mails = [], logs = ls,
       retry_in = (if attempt < maxAttempts then Some (2 ^ attempt * 1000) else None) \<rparr>"

definition poll_done ::
  "'j state \<Rightarrow> Email list \<Rightarrow> log_event list \<Rightarrow> 'j poll_result" where
  "poll_done s ms ls = \<lparr> new_state = s, mails = ms, logs = ls, retry_in = None \<rparr>"

definition pollWeatherAPI_ws ::
  "(payload \<Rightarrow> 'j) \<Rightarrow> transporter \<Rightarrow> 'j state \<Rightarrow> nat \<Rightarrow> nat \<Rightarrow>
   WeatherData fetched \<Rightarrow> 'j poll_result" where
  "pollWeatherAPI_ws stringify tr s attempt maxAttempts resp =
     (case resp of
        FetchFailed err \<Rightarrow>
          poll_failed s [LogWeatherPolling attempt maxAttempts, LogWeatherError err]
            attempt maxAttempts
      | Fetched data \<Rightarrow>
          (let newDataJSON = stringify (WeatherPayload data)
           in if hasDataChanged (latestWeatherDataJSON s) (Some newDataJSON)
              then
                (case weather data of
                   None \<Rightarrow>
                     poll_failed s
                       [LogWeatherPolling attempt maxAttempts, LogWeatherChanged,
                        LogWeatherError ''TypeError'']
                       attempt maxAttempts
                 | Some ws \<Rightarrow>
                     if (case latestWeatherDataObj s of
                           None \<Rightarrow> False | Some prev \<Rightarrow> weather prev = None)
                     then poll_failed s
                            [LogWeatherPolling attempt maxAttempts, LogWeatherChanged,
                             LogWeatherError ''TypeError'']
                            attempt maxAttempts
                     else
                       (let activeEvent = find active ws;
                            prevActiveEvent =
                              (case latestWeatherDataObj s of
                                 None \<Rightarrow> None | Some prev \<Rightarrow> activeEventOf prev);
                            s' = s\<lparr> latestWeatherDataJSON := Some newDataJSON,
                                     latestWeatherDataObj := Some data \<rparr>
                        in (case activeEvent of
                              Some ev \<Rightarrow>
                                if (case prevActiveEvent of
                                      None \<Rightarrow> True
                                    | Some p \<Rightarrow> weather_id ev \<noteq> weather_id p)
                                then
                                  (let out = weatherFanOut tr s
                                               (WeatherSubject (weather_name ev))
                                               ev (discord_invite data)
                                   in poll_done s' (map fst out)
                                        ([LogWeatherPolling attempt maxAttempts,
                                          LogWeatherChanged,
                                          LogNewWeather (weather_name ev)]
                                         @ map snd out))
                                else poll_done s' []
                                       [LogWeatherPolling attempt maxAttempts,
                                        LogWeatherChanged]
                            | None \<Rightarrow>
                                (case prevActiveEvent of
                                   Some p \<Rightarrow>
                                     poll_done s' []
                                       [LogWeatherPolling attempt maxAttempts,
                                        LogWeatherChanged,
                                        LogWeatherEnded (weather_name p)]
                                 | None \<Rightarrow>
                                     poll_done s' []
                                       [LogWeatherPolling attempt maxAttempts,
                                        LogWeatherChanged]))))
              else poll_done s [] [LogWeatherPolling attempt maxAttempts]))"

text \<open>
  The handlers of the WebSocket variant. \<^verbatim>\<open>/verify\<close> looks the raw query parameter up
  (an absent parameter is no key of the map) and compares the stored token with the
  \<^verbatim>\<open>token\<close> parameter, which an absent parameter never equals.
\<close>

definition verify_ws :: "'j state \<Rightarrow> string option \<Rightarrow> string option \<Rightarrow> 'j reply" where
  "verify_ws s email tok =
     (case (case email of
              None \<Rightarrow> None | Some e \<Rightarrow> Map_get (pendingVerifications s) e) of
        None \<Rightarrow> reply s [] [LogVerifyAttempt email, LogVerifyFailed email]
                  (Text 400 ''Invalid or expired verification link.'')
      | Some verification \<Rightarrow>
          if Some (token verification) \<noteq> tok
          then reply s [] [LogVerifyAttempt email, LogVerifyFailed email]
                 (Text 400 ''Invalid or expired verification link.'')
          else reply
                 (s\<lparr> pendingVerifications :=
                       snd (Map_delete (pendingVerifications s) (the email)) \<rparr>)
                 [] [LogVerifyAttempt email, LogEmailVerified (the email)]
                 (RedirectVerified (the email)))"

definition subscribe_ws :: "'j state \<Rightarrow> string option \<Rightarrow> items_field \<Rightarrow> 'j reply" where
  "subscribe_ws s rawEmail rawItems =
     (let email = opt_trim rawEmail; items = bodyItems rawItems
      in if falsy email \<or> length items = 0
         then reply s [] [LogSubscribeAttempt email (length items), LogSubscribeInvalid email]
                (RedirectError ''Invalid input'')
         else reply (s\<lparr> subscriptions := Map_set (subscriptions s) (the email) (set items) \<rparr>)
                [] [LogSubscribeAttempt email (length items),
                    LogNewSubscription (the email) (length items)]
                RedirectSubscribed)"

definition unsub_ws :: "'j state \<Rightarrow> string option \<Rightarrow> 'j reply" where
  "unsub_ws s rawEmail =
     (let email = opt_trim rawEmail
      in (case email of
            None \<Rightarrow> reply s [] [LogUnsubAttempt email, LogUnsubNotFound email]
                      (Text 404 ''Email not found.'')
          | Some e \<Rightarrow>
              (let (deleted, subs') = Map_delete (subscriptions s) e
               in if deleted
                  then reply (s\<lparr> subscriptions := subs' \<rparr>) []
                         [LogUnsubAttempt email, LogUnsubscribed e] RedirectUnsubscribed
                  else reply (s\<lparr> subscriptions := subs' \<rparr>) []
                         [LogUnsubAttempt email, LogUnsubNotFound email]
                         (Text 404 ''Email not found.''))))"

section \<open>Notions used in the statements\<close>

text \<open>The active event of the last weather snapshot seen, if there is one.\<close>

definition prevActiveEvent :: "'j state \<Rightarrow> WeatherEvent option" where
  "prevActiveEvent s =
     (case latestWeatherDataObj s of None \<Rightarrow> None | Some prev \<Rightarrow> activeEventOf prev)"

text \<open>
  The two last-seen weather variables are assigned together: the serialised form is the
  serialisation of the stored object.
\<close>

definition weather_synced :: "(payload \<Rightarrow> 'j) \<Rightarrow> 'j state \<Rightarrow> bool" where
  "weather_synced stringify s =
     (latestWeatherDataJSON s =
        map_option (\<lambda>d. stringify (WeatherPayload d)) (latestWeatherDataObj s))"

text \<open>The stored weather snapshot has a \<^verbatim>\<open>weather\<close> array (WebSocket variant).\<close>

definition weather_parsed :: "'j state \<Rightarrow> bool" where
  "weather_parsed s =
     (case latestWeatherDataObj s of None \<Rightarrow> True | Some prev \<Rightarrow> weather prev \<noteq> None)"

text \<open>A \<^verbatim>\<open>Map\<close> holds one entry per key.\<close>

definition maps_distinct :: "'j state \<Rightarrow> bool" where
  "maps_distinct s =
     (distinct (Map_keys (subscriptions s)) \<and>
      distinct (Map_keys (pendingVerifications s)) \<and>
      distinct (Map_keys (verifiedEmails s)))"

definition subscribers_verified :: "'j state \<Rightarrow> bool" where
  "subscribers_verified s =
     (\<forall>e \<in> set (Map_keys (subscriptions s)). Map_has (verifiedEmails s) e)"



fun reissues :: "string \<Rightarrow> string \<Rightarrow> event \<Rightarrow> bool" where
  "reissues e t (PostRequestVerification rawEmail tok now) =
     (opt_trim rawEmail = Some e \<and> tok = t)"
| "reissues e t ev = False"


text \<open>The token \<open>t\<close> cannot verify \<open>e\<close>: no pending entry for \<open>e\<close> carries it.\<close>

definition unusable :: "'j state \<Rightarrow> string \<Rightarrow> string \<Rightarrow> bool" where
  "unusable s e t =
     (case Map_get (pendingVerifications s) e of None \<Rightarrow> True | Some pv \<Rightarrow> token pv \<noteq> t)"

text \<open>A verify call succeeded when it answered with the redirect to the verified page.\<close>

definition verified_redirect :: "response \<Rightarrow> bool" where
  "verified_redirect r = (case r of RedirectVerified e \<Rightarrow> True | _ \<Rightarrow> False)"

subsection \<open>Example inputs\<close>

definition ex_relay :: transporter where
  "ex_relay = \<lparr> smtp_verify = None, smtp_sendMail = (\<lambda>m. Inr ''250 OK'') \<rparr>"

definition ex_relay_down :: transporter where
  "ex_relay_down =
     \<lparr> smtp_verify = Some ''ECONNREFUSED'', smtp_sendMail = (\<lambda>m. Inl ''ECONNREFUSED'') \<rparr>"

text \<open>A sign-up: request (the address is trimmed), verify, subscribe.\<close>

definition ex_signup :: "event list" where
  "ex_signup =
     [PostRequestVerification (Some '' a@x.com '') ''t1'' 0,
      GetVerify (Some ''a@x.com'') (Some ''t1'') 1000,
      PostSubscribe (Some ''a@x.com'') (ItemsArray [''carrot'', ''tomato''])]"

definition ex_subscribed :: "payload state" where
  "ex_subscribed =
     initial_state
       \<lparr> verifiedEmails := [(''a@x.com'', \<lparr> verified = True, verified_at = 1000 \<rparr>)],
         subscriptions := [(''a@x.com'', {''carrot'', ''tomato''})] \<rparr>"

text \<open>A state with one pending verification, issued half an hour after the start.\<close>

definition ex_pending :: "payload state" where
  "ex_pending =
     initial_state
       \<lparr> pendingVerifications := [(''b@x.com'', \<lparr> token = ''t2'', timestamp = 1800000 \<rparr>)] \<rparr>"

definition ex_stock :: StockData where
  "ex_stock =
     [''seed_stock'' \<mapsto>
        [\<lparr> item_id = ''carrot'', display_name = ''Carrot'', quantity = 3 \<rparr>,
         \<lparr> item_id = ''tomato'', display_name = ''Tomato'', quantity = 0 \<rparr>],
      ''gear_stock'' \<mapsto>
        [\<lparr> item_id = ''trowel'', display_name = ''Trowel'', quantity = 5 \<rparr>]]"

text \<open>The same stock with the carrots sold out, and with an item that has no identifier.\<close>

definition ex_stock_out :: StockData where
  "ex_stock_out =
     ex_stock(''seed_stock'' \<mapsto>
        [\<lparr> item_id = ''carrot'', display_name = ''Carrot'', quantity = 0 \<rparr>,
         \<lparr> item_id = ''tomato'', display_name = ''Tomato'', quantity = 0 \<rparr>])"

definition ex_stock_ws :: StockData where
  "ex_stock_ws =
     [''seed_stock'' \<mapsto>
        [\<lparr> item_id = [], display_name = ''Ghost'', quantity = 2 \<rparr>,
         \<lparr> item_id = ''carrot'', display_name = ''Carrot'', quantity = 3 \<rparr>],
      ''eventshop_stock'' \<mapsto>
        [\<lparr> item_id = ''tomato'', display_name = [], quantity = 4 \<rparr>]]"

definition ex_rain :: WeatherData where
  "ex_rain =
     \<lparr> weather = Some [\<lparr> weather_id = ''frost'', weather_name = ''Frost'',
                          active = False, duration = 0 \<rparr>,
                        \<lparr> weather_id = ''rain'', weather_name = ''Rain'',
                          active = True, duration = 300 \<rparr>],
       discord_invite = [] \<rparr>"



text \<open>The subscribed state after the weather poll has stored the rain snapshot.\<close>

definition ex_raining :: "payload state" where
  "ex_raining =
     ex_subscribed
       \<lparr> latestWeatherDataJSON := Some (WeatherPayload ex_rain),
         latestWeatherDataObj := Some ex_rain \<rparr>"

text \<open>Two pending verifications, one issued after half an hour, one much later.\<close>

definition ex_two_pending :: "payload state" where
  "ex_two_pending =
     initial_state
       \<lparr> pendingVerifications :=
           [(''b@x.com'', \<lparr> token = ''t2'', timestamp = 1800000 \<rparr>),
            (''c@x.com'', \<lparr> token = ''t3'', timestamp = 50000000 \<rparr>)] \<rparr>"


text \<open>
  The first 24 hourly sweeps of a process started at time 0, and the state in which a
  verification was requested half an hour after the start.
\<close>

definition ex_hourly_sweeps :: "event list" where
  "ex_hourly_sweeps =
     map ExpirySweep
       [3600000, 7200000, 10800000, 14400000, 18000000, 21600000,
        25200000, 28800000, 32400000, 36000000, 39600000, 43200000,
        46800000, 50400000, 54000000, 57600000, 61200000, 64800000,
        68400000, 72000000, 75600000, 79200000, 82800000, 86400000]"

definition ex_requested :: "payload state" where
  "ex_requested =
     new_state (request_verification ex_relay initial_state (Some ''b@x.com'') ''t2'' 1800000)"

section \<open>Facts about maps and replies\<close>

lemma reply_sel [simp]:
  "new_state (reply s ms ls r) = s" "mails (reply s ms ls r) = ms"
  "logs (reply s ms ls r) = ls" "response (reply s ms ls r) = r"
  by (simp_all add: reply_def)

lemma Map_has_keys: "Map_has m k = (k \<in> set (Map_keys m))"
  by (simp add: Map_has_def Map_keys_def map_of_eq_None_iff)

lemma Map_keys_set: "set (Map_keys (Map_set m k v)) = insert k (set (Map_keys m))"
  using dom_update [of k v m] by (simp add: Map_keys_def Map_set_def)

lemma Map_keys_delete: "Map_keys (snd (Map_delete m k)) = removeAll k (Map_keys m)"
  by (simp add: Map_keys_def Map_delete_def delete_keys)

lemma distinct_Map_set: "distinct (Map_keys m) \<Longrightarrow> distinct (Map_keys (Map_set m k v))"
  by (simp add: Map_keys_def Map_set_def distinct_update)

lemma distinct_Map_delete: "distinct (Map_keys m) \<Longrightarrow> distinct (Map_keys (snd (Map_delete m k)))"
  by (simp add: Map_keys_delete distinct_removeAll)

lemma Map_delete_absent: "\<not> Map_has m k \<Longrightarrow> snd (Map_delete m k) = m"
  by (simp add: Map_delete_def Map_has_def map_of_eq_None_iff)

lemma Map_get_set: "Map_get (Map_set m k v) k' = (if k' = k then Some v else Map_get m k')"
  by (simp add: Map_get_def Map_set_def update_conv')

lemma Map_get_delete: "Map_get (snd (Map_delete m k)) k' = (if k' = k then None else Map_get m k')"
  by (simp add: Map_get_def Map_delete_def delete_conv')

lemma Map_has_set: "Map_has (Map_set m k v) k' = (k' = k \<or> Map_has m k')"
  by (simp add: Map_has_def Map_set_def update_conv')

lemma Map_has_delete: "Map_has (snd (Map_delete m k)) k' = (k' \<noteq> k \<and> Map_has m k')"
  by (auto simp add: Map_has_def Map_delete_def delete_conv')

lemma fst_Map_delete [simp]: "fst (Map_delete m k) = Map_has m k"
  by (simp add: Map_delete_def)

subsection \<open>The sweep loop\<close>

lemma sweep_fold:
  "fold (\<lambda>(email, pv) (m, l).
             if now - timestamp pv > expirationTime
             then (snd (Map_delete m email), l @ [LogExpired email])
             else (m, l)) xs (m, l)
   = (filter (\<lambda>p. fst p \<notin> fst ` {q \<in> set xs. now - timestamp (snd q) > expirationTime}) m,
      l @ map (\<lambda>p. LogExpired (fst p)) (filter (\<lambda>p. now - timestamp (snd p) > expirationTime) xs))"
proof (induction xs arbitrary: m l)
  case Nil
  then show ?case by simp
next
  case (Cons x xs)
  obtain e pv where x: "x = (e, pv)" by (cases x)
  show ?case
  proof (cases "now - timestamp pv > expirationTime")
    case True
    have A: "{q \<in> set (x # xs). now - timestamp (snd q) > expirationTime}
          = insert (e, pv) {q \<in> set xs. now - timestamp (snd q) > expirationTime}"
      using True by (auto simp: x)
    have "filter (\<lambda>p. fst p \<notin> fst ` {q \<in> set xs. now - timestamp (snd q) > expirationTime})
            (AList.delete e m)
          = filter (\<lambda>p. fst p \<notin> fst ` {q \<in> set (x # xs). now - timestamp (snd q) > expirationTime}) m"
      unfolding A AList.delete_eq filter_filter
      by (rule filter_cong) auto
    then show ?thesis using True by (simp add: x Cons.IH Map_delete_def)
  next
    case False
    have "{q \<in> set (x # xs). now - timestamp (snd q) > expirationTime}
          = {q \<in> set xs. now - timestamp (snd q) > expirationTime}"
      using False by (auto simp: x)
    then show ?thesis using False by (simp add: x Cons.IH)
  qed
qed

lemma distinct_fst_unique:
  assumes "distinct (map fst xs)" "p \<in> set xs" "q \<in> set xs" "fst q = fst p"
  shows "snd q = snd p"
proof -
  have "(fst p, snd p) \<in> set xs" "(fst p, snd q) \<in> set xs"
    using assms(2,3,4) by (simp_all add: prod_eq_iff [symmetric]) (metis prod.collapse)
  with assms(1) show ?thesis by (rule_tac eq_key_imp_eq_value [symmetric])
qed

lemma sweepPending_filter:
  assumes "distinct (Map_keys pending)"
  shows "fst (sweepPending now pending) =
           filter (\<lambda>p. \<not> now - timestamp (snd p) > expirationTime) pending"
proof -
  have "(fst p \<notin> fst ` {q \<in> set pending. now - timestamp (snd q) > expirationTime})
        = (\<not> now - timestamp (snd p) > expirationTime)" if p: "p \<in> set pending" for p
  proof
    assume "fst p \<notin> fst ` {q \<in> set pending. now - timestamp (snd q) > expirationTime}"
    then have "p \<notin> {q \<in> set pending. now - timestamp (snd q) > expirationTime}"
      by (rule contrapos_nn) (rule imageI)
    with p show "\<not> now - timestamp (snd p) > expirationTime" by simp
  next
    assume young: "\<not> now - timestamp (snd p) > expirationTime"
    show "fst p \<notin> fst ` {q \<in> set pending. now - timestamp (snd q) > expirationTime}"
    proof
      assume "fst p \<in> fst ` {q \<in> set pending. now - timestamp (snd q) > expirationTime}"
      then obtain q where q: "q \<in> set pending" "now - timestamp (snd q) > expirationTime"
        "fst q = fst p" by auto
      from assms p q(1,3) have "snd q = snd p"
        unfolding Map_keys_def by (rule distinct_fst_unique)
      with q(2) young show False by simp
    qed
  qed
  then have "filter (\<lambda>p. fst p \<notin> fst ` {q \<in> set pending. now - timestamp (snd q) > expirationTime}) pending
           = filter (\<lambda>p. \<not> now - timestamp (snd p) > expirationTime) pending"
    by (rule filter_cong [OF refl])
  then show ?thesis
    by (simp add: sweepPending_def sweep_fold)
qed

lemma sweepPending_subset:
  "set (fst (sweepPending now pending)) \<subseteq> set pending"
  by (simp add: sweepPending_def sweep_fold)

lemma sweepPending_distinct:
  "distinct (Map_keys pending) \<Longrightarrow> distinct (Map_keys (fst (sweepPending now pending)))"
  by (simp add: sweepPending_def sweep_fold Map_keys_def distinct_map_filter)

lemma sweepPending_logs:
  "snd (sweepPending now pending) =
     map (\<lambda>p. LogExpired (fst p)) (filter (\<lambda>p. now - timestamp (snd p) > expirationTime) pending)"
  by (simp add: sweepPending_def sweep_fold)

lemma sweep_lookup:
  assumes d: "distinct (Map_keys pending)" and g: "Map_get pending e = Some pv"
  shows "Map_get (fst (sweepPending now pending)) e
           = (if now - timestamp pv > expirationTime then None else Some pv)"
proof -
  from g have mem: "(e, pv) \<in> set pending"
    unfolding Map_get_def by (rule map_of_SomeD)
  let ?kept = "filter (\<lambda>p. \<not> now - timestamp (snd p) > expirationTime) pending"
  have "Map_get ?kept e = (if now - timestamp pv > expirationTime then None else Some pv)"
  proof (cases "now - timestamp pv > expirationTime")
    case True
    have "e \<notin> fst ` set ?kept"
    proof
      assume "e \<in> fst ` set ?kept"
      then obtain q where q: "q \<in> set pending" "fst q = e"
        "\<not> now - timestamp (snd q) > expirationTime" by auto
      from d mem q(1) have "snd q = snd (e, pv)"
        unfolding Map_keys_def by (rule distinct_fst_unique) (simp add: q(2))
      with q(3) True show False by simp
    qed
    then show ?thesis using True by (simp add: Map_get_def map_of_eq_None_iff)
  next
    case False
    have "distinct (map fst ?kept)"
      using d unfolding Map_keys_def by (rule distinct_map_filter)
    moreover have "(e, pv) \<in> set ?kept"
      using mem False by simp
    ultimately show ?thesis using False by (simp add: Map_get_def)
  qed
  then show ?thesis by (simp add: sweepPending_filter [OF d])
qed

lemma sweep_lookup_weak:
  "Map_get (fst (sweepPending now pending)) e = None \<or>
   Map_get (fst (sweepPending now pending)) e = Map_get pending e"
proof -
  let ?K = "fst ` {q \<in> set pending. now - timestamp (snd q) > expirationTime}"
  have "map_of (filter (\<lambda>p. fst p \<notin> ?K) pending) = map_of pending |` {k. k \<notin> ?K}"
    using map_of_filter [of "\<lambda>k. k \<notin> ?K" pending] by simp
  then have "map_of (filter (\<lambda>p. fst p \<notin> ?K) pending) e
             = (if e \<notin> ?K then map_of pending e else None)"
    by (simp add: restrict_map_def)
  then show ?thesis
    by (simp add: sweepPending_def sweep_fold Map_get_def)
qed

section \<open>Frame conditions and invariants\<close>

lemma fetchItemInfo_frame [simp]:
  "subscriptions (new_state (fetchItemInfo s r)) = subscriptions s"
  "verifiedEmails (new_state (fetchItemInfo s r)) = verifiedEmails s"
  "pendingVerifications (new_state (fetchItemInfo s r)) = pendingVerifications s"
  "latestWeatherDataJSON (new_state (fetchItemInfo s r)) = latestWeatherDataJSON s"
  "latestWeatherDataObj (new_state (fetchItemInfo s r)) = latestWeatherDataObj s"
  "latestStockDataJSON (new_state (fetchItemInfo s r)) = latestStockDataJSON s"
  "latestStockDataObj (new_state (fetchItemInfo s r)) = latestStockDataObj s"
  by (simp_all add: fetchItemInfo_def Let_def split: fetched.splits)

lemma pollStockAPI_frame [simp]:
  "subscriptions (new_state (pollStockAPI stringify tr s resp infoResp)) = subscriptions s"
  "verifiedEmails (new_state (pollStockAPI stringify tr s resp infoResp)) = verifiedEmails s"
  "pendingVerifications (new_state (pollStockAPI stringify tr s resp infoResp)) = pendingVerifications s"
  "latestWeatherDataJSON (new_state (pollStockAPI stringify tr s resp infoResp)) = latestWeatherDataJSON s"
  "latestWeatherDataObj (new_state (pollStockAPI stringify tr s resp infoResp)) = latestWeatherDataObj s"
  by (simp_all add: pollStockAPI_def Let_def split: fetched.splits)

lemma pollWeatherAPI_frame [simp]:
  "subscriptions (new_state (pollWeatherAPI stringify tr s resp)) = subscriptions s"
  "verifiedEmails (new_state (pollWeatherAPI stringify tr s resp)) = verifiedEmails s"
  "pendingVerifications (new_state (pollWeatherAPI stringify tr s resp)) = pendingVerifications s"
  "latestStockDataJSON (new_state (pollWeatherAPI stringify tr s resp)) = latestStockDataJSON s"
  "latestStockDataObj (new_state (pollWeatherAPI stringify tr s resp)) = latestStockDataObj s"
  "itemInfo (new_state (pollWeatherAPI stringify tr s resp)) = itemInfo s"
  by (simp_all add: pollWeatherAPI_def Let_def split: fetched.splits option.splits)

lemma expirySweep_frame [simp]:
  "subscriptions (new_state (expirySweep s now)) = subscriptions s"
  "verifiedEmails (new_state (expirySweep s now)) = verifiedEmails s"
  "latestStockDataJSON (new_state (expirySweep s now)) = latestStockDataJSON s"
  "latestStockDataObj (new_state (expirySweep s now)) = latestStockDataObj s"
  "latestWeatherDataJSON (new_state (expirySweep s now)) = latestWeatherDataJSON s"
  "latestWeatherDataObj (new_state (expirySweep s now)) = latestWeatherDataObj s"
  "itemInfo (new_state (expirySweep s now)) = itemInfo s"
  "mails (expirySweep s now) = []"
  by (simp_all add: expirySweep_def split_def Let_def)

lemma expirySweep_pending:
  "pendingVerifications (new_state (expirySweep s now)) = fst (sweepPending now (pendingVerifications s))"
  by (simp add: expirySweep_def split_def Let_def)

lemma request_verification_frame [simp]:
  "subscriptions (new_state (request_verification tr s rawEmail tok now)) = subscriptions s"
  "verifiedEmails (new_state (request_verification tr s rawEmail tok now)) = verifiedEmails s"
  "latestWeatherDataJSON (new_state (request_verification tr s rawEmail tok now)) = latestWeatherDataJSON s"
  "latestWeatherDataObj (new_state (request_verification tr s rawEmail tok now)) = latestWeatherDataObj s"
  by (simp_all add: request_verification_def sendVerificationEmail_def Let_def split: option.splits)

lemma request_verification_pending:
  "pendingVerifications (new_state (request_verification tr s rawEmail tok now)) =
     (if falsy (opt_trim rawEmail) \<or> Map_has (subscriptions s) (the (opt_trim rawEmail))
      then pendingVerifications s
      else Map_set (pendingVerifications s) (the (opt_trim rawEmail)) \<lparr> token = tok, timestamp = now \<rparr>)"
  by (simp_all add: request_verification_def sendVerificationEmail_def Let_def split: option.splits)

lemma verify_frame [simp]:
  "subscriptions (new_state (verify s email tok now)) = subscriptions s"
  "latestWeatherDataJSON (new_state (verify s email tok now)) = latestWeatherDataJSON s"
  "latestWeatherDataObj (new_state (verify s email tok now)) = latestWeatherDataObj s"
  by (simp_all add: verify_def split: option.splits)

lemma verify_maps:
  "pendingVerifications (new_state (verify s email tok now)) =
     (if (\<exists>e. response (verify s email tok now) = RedirectVerified e)
      then snd (Map_delete (pendingVerifications s) (the email)) else pendingVerifications s)"
  "verifiedEmails (new_state (verify s email tok now)) =
     (if (\<exists>e. response (verify s email tok now) = RedirectVerified e)
      then Map_set (verifiedEmails s) (the email) \<lparr> verified = True, verified_at = now \<rparr>
      else verifiedEmails s)"
  by (simp_all add: verify_def split: option.splits)

lemma subscribe_frame [simp]:
  "pendingVerifications (new_state (subscribe s rawEmail f)) = pendingVerifications s"
  "verifiedEmails (new_state (subscribe s rawEmail f)) = verifiedEmails s"
  "latestWeatherDataJSON (new_state (subscribe s rawEmail f)) = latestWeatherDataJSON s"
  "latestWeatherDataObj (new_state (subscribe s rawEmail f)) = latestWeatherDataObj s"
  by (simp_all add: subscribe_def Let_def)

lemma subscribe_subs:
  "subscriptions (new_state (subscribe s rawEmail f)) =
    (if falsy (opt_trim rawEmail) \<or> bodyItems f = [] \<or> \<not> Map_has (verifiedEmails s) (the (opt_trim rawEmail))
     then subscriptions s
     else Map_set (subscriptions s) (the (opt_trim rawEmail)) (set (bodyItems f)))"
  by (simp_all add: subscribe_def Let_def)

lemma unsub_frame [simp]:
  "pendingVerifications (new_state (unsub s rawEmail)) = pendingVerifications s"
  "latestWeatherDataJSON (new_state (unsub s rawEmail)) = latestWeatherDataJSON s"
  "latestWeatherDataObj (new_state (unsub s rawEmail)) = latestWeatherDataObj s"
  by (simp_all add: unsub_def Let_def split_def)

lemma unsub_maps:
  "subscriptions (new_state (unsub s rawEmail)) =
     (if falsy (opt_trim rawEmail) then subscriptions s
      else snd (Map_delete (subscriptions s) (the (opt_trim rawEmail))))"
  "verifiedEmails (new_state (unsub s rawEmail)) =
     (if falsy (opt_trim rawEmail) \<or> \<not> Map_has (subscriptions s) (the (opt_trim rawEmail))
      then verifiedEmails s
      else snd (Map_delete (verifiedEmails s) (the (opt_trim rawEmail))))"
  by (simp_all add: unsub_def Let_def split_def)

lemma passive_handlers [simp]:
  "new_state (check_verification s rawEmail) = s"
  "new_state (test_email tr s rawEmail) = s"
  "new_state (refresh_items s infoResp) = new_state (fetchItemInfo s infoResp)"
  by (simp_all add: check_verification_def test_email_def refresh_items_def Let_def split_def)

lemma step_maps_distinct:
  assumes "maps_distinct s"
  shows "maps_distinct (step stringify tr s ev)"
proof (cases ev)
  case (ExpirySweep now)
  then show ?thesis using assms
    by (simp add: step_def maps_distinct_def expirySweep_pending sweepPending_distinct)
next
  case (PostRequestVerification rawEmail tok now)
  then show ?thesis using assms
    by (simp add: step_def maps_distinct_def request_verification_pending distinct_Map_set)
next
  case (GetVerify email tok now)
  then show ?thesis using assms
    by (simp add: step_def maps_distinct_def verify_maps distinct_Map_set distinct_Map_delete)
next
  case (PostSubscribe rawEmail f)
  then show ?thesis using assms
    by (simp add: step_def maps_distinct_def subscribe_subs distinct_Map_set)
next
  case (GetUnsub rawEmail)
  then show ?thesis using assms
    by (simp add: step_def maps_distinct_def unsub_maps distinct_Map_delete)
qed (use assms in \<open>simp_all add: step_def maps_distinct_def\<close>)

lemma step_subscribers_verified:
  assumes "subscribers_verified s"
  shows "subscribers_verified (step stringify tr s ev)"
proof (cases ev)
  case (GetVerify email tok now)
  then show ?thesis using assms
    by (auto simp add: step_def subscribers_verified_def verify_maps Map_has_set)
next
  case (PostSubscribe rawEmail f)
  then show ?thesis using assms
    by (auto simp add: step_def subscribers_verified_def subscribe_subs Map_keys_set)
next
  case (GetUnsub rawEmail)
  then show ?thesis using assms
    by (auto simp add: step_def subscribers_verified_def unsub_maps Map_keys_delete Map_has_delete)
qed (use assms in \<open>simp_all add: step_def subscribers_verified_def\<close>)

lemma pollWeatherAPI_synced:
  "weather_synced stringify s \<Longrightarrow> weather_synced stringify (new_state (pollWeatherAPI stringify tr s resp))"
  by (auto simp add: weather_synced_def pollWeatherAPI_def Let_def split: fetched.splits option.splits)

lemma step_weather_synced:
  assumes "weather_synced stringify s"
  shows "weather_synced stringify (step stringify tr s ev)"
proof (cases ev)
  case (PollWeather resp)
  then show ?thesis using assms by (simp add: step_def pollWeatherAPI_synced)
qed (use assms in \<open>simp_all add: step_def weather_synced_def\<close>)

lemma run_invariants:
  "maps_distinct (run stringify tr initial_state evs)"
  "subscribers_verified (run stringify tr initial_state evs)"
  "weather_synced stringify (run stringify tr initial_state evs)"
proof -
  have init: "maps_distinct (initial_state :: 'a state)" "subscribers_verified (initial_state :: 'a state)"
     "weather_synced stringify (initial_state :: 'a state)"
    by (simp_all add: maps_distinct_def subscribers_verified_def weather_synced_def initial_state_def Map_keys_def)
  have "maps_distinct (run stringify tr initial_state evs) \<and>
        subscribers_verified (run stringify tr initial_state evs) \<and>
        weather_synced stringify (run stringify tr initial_state evs)"
    unfolding run_def
    by (induction evs rule: rev_induct)
       (simp_all add: init step_maps_distinct step_subscribers_verified step_weather_synced)
  then show "maps_distinct (run stringify tr initial_state evs)"
  "subscribers_verified (run stringify tr initial_state evs)"
  "weather_synced stringify (run stringify tr initial_state evs)" by simp_all
qed

subsection \<open>What the handlers do\<close>

lemma expirySweep_state:
  "distinct (Map_keys (pendingVerifications s)) \<Longrightarrow>
   new_state (expirySweep s now) =
     s\<lparr> pendingVerifications :=
          filter (\<lambda>p. \<not> now - timestamp (snd p) > expirationTime) (pendingVerifications s) \<rparr>"
  by (simp add: expirySweep_def split_def Let_def sweepPending_filter)

lemma unsub_absent:
  assumes "opt_trim rawEmail = Some e" "\<not> Map_has (subscriptions s) e"
  shows "new_state (unsub s rawEmail) = s"
    and "e \<noteq> [] \<Longrightarrow> response (unsub s rawEmail) = Text 200 ''Email not found in subscriptions.''"
  using assms by (simp_all add: unsub_def falsy_def Map_delete_def Map_delete_absent [unfolded Map_delete_def, simplified] Let_def)

lemma unsub_present:
  assumes "opt_trim rawEmail = Some e" "e \<noteq> []" "Map_has (subscriptions s) e"
  shows "\<not> Map_has (subscriptions (new_state (unsub s rawEmail))) e"
    and "response (unsub s rawEmail) = RedirectUnsubscribed"
    and "k \<noteq> e \<Longrightarrow> Map_get (subscriptions (new_state (unsub s rawEmail))) k = Map_get (subscriptions s) k"
  using assms
  by (simp_all add: unsub_def falsy_def split_def Let_def Map_has_delete Map_get_delete)

lemma unsub_ws_absent:
  assumes "\<forall>e. opt_trim rawEmail = Some e \<longrightarrow> \<not> Map_has (subscriptions s) e"
  shows "new_state (unsub_ws s rawEmail) = s"
    and "response (unsub_ws s rawEmail) = Text 404 ''Email not found.''"
  using assms
  by (auto simp add: unsub_ws_def Map_delete_def Map_delete_absent [unfolded Map_delete_def, simplified] Let_def split: option.splits)

lemma unsub_ws_present:
  assumes "opt_trim rawEmail = Some e" "Map_has (subscriptions s) e"
  shows "\<not> Map_has (subscriptions (new_state (unsub_ws s rawEmail))) e"
    and "response (unsub_ws s rawEmail) = RedirectUnsubscribed"
    and "k \<noteq> e \<Longrightarrow> Map_get (subscriptions (new_state (unsub_ws s rawEmail))) k = Map_get (subscriptions s) k"
  using assms
  by (simp_all add: unsub_ws_def split_def Let_def Map_has_delete Map_get_delete)

lemma subscribe_accepts:
  assumes "opt_trim rawEmail = Some e" "e \<noteq> []" "Map_has (verifiedEmails s) e" "bodyItems f \<noteq> []"
  shows "new_state (subscribe s rawEmail f) = s\<lparr> subscriptions := Map_set (subscriptions s) e (set (bodyItems f)) \<rparr>"
   and "response (subscribe s rawEmail f) = Json 200 True ''Subscription successful!''"
  using assms by (simp_all add: subscribe_def falsy_def Let_def)

lemma subscribe_unverified:
  assumes "opt_trim rawEmail = Some e" "\<not> Map_has (verifiedEmails s) e" "e \<noteq> []" "bodyItems f \<noteq> []"
  shows "new_state (subscribe s rawEmail f) = s"
    and "response (subscribe s rawEmail f) = Json 400 False ''Email not verified''"
  using assms by (simp_all add: subscribe_def falsy_def Let_def)

lemma subscribe_ws_accepts:
  assumes "opt_trim rawEmail = Some e" "e \<noteq> []" "bodyItems f \<noteq> []"
  shows "new_state (subscribe_ws s rawEmail f) = s\<lparr> subscriptions := Map_set (subscriptions s) e (set (bodyItems f)) \<rparr>"
   and "response (subscribe_ws s rawEmail f) = RedirectSubscribed"
  using assms by (simp_all add: subscribe_ws_def falsy_def Let_def)

lemma subscribe_twice:
  assumes "opt_trim rawEmail = Some e" "e \<noteq> []" "Map_has (verifiedEmails s) e"
    "bodyItems f1 \<noteq> []" "bodyItems f2 \<noteq> []"
  shows "Map_get (subscriptions (new_state (subscribe (new_state (subscribe s rawEmail f1)) rawEmail f2))) e
         = Some (set (bodyItems f2))"
  using assms by (simp add: subscribe_accepts Map_get_set)

lemma subscribe_ws_twice:
  assumes "opt_trim rawEmail = Some e" "e \<noteq> []"
    "bodyItems f1 \<noteq> []" "bodyItems f2 \<noteq> []"
  shows "Map_get (subscriptions (new_state (subscribe_ws (new_state (subscribe_ws s rawEmail f1)) rawEmail f2))) e
         = Some (set (bodyItems f2))"
  using assms by (simp add: subscribe_ws_accepts Map_get_set)

lemma request_verification_relay_independent:
  "new_state (request_verification tr s rawEmail tok now) = new_state (request_verification tr' s rawEmail tok now)"
  "response (request_verification tr s rawEmail tok now) = response (request_verification tr' s rawEmail tok now)"
  by (simp_all add: request_verification_def sendVerificationEmail_def Let_def split: option.splits)

lemma request_verification_accepts:
  assumes "opt_trim rawEmail = Some e" "e \<noteq> []" "\<not> Map_has (subscriptions s) e"
  shows "new_state (request_verification tr s rawEmail tok now) =
           s\<lparr> pendingVerifications := Map_set (pendingVerifications s) e \<lparr> token = tok, timestamp = now \<rparr> \<rparr>"
    and "response (request_verification tr s rawEmail tok now) =
           Json 200 True ''Verification email sent. Please check your inbox.''"
  using assms by (simp_all add: request_verification_def sendVerificationEmail_def falsy_def Let_def split: option.splits)

lemma request_verification_logs:
  assumes "opt_trim rawEmail = Some e" "e \<noteq> []" "\<not> Map_has (subscriptions s) e"
  shows "logs (request_verification tr s rawEmail tok now) =
          LogProcessing e #
          (case smtp_verify tr of
             Some err \<Rightarrow> [LogSmtpError err]
           | None \<Rightarrow> [LogSmtpVerified,
                      case smtp_sendMail tr \<lparr> mail_to = e, mail_subject = VerifySubject, mail_html = VerificationHtml e tok \<rparr> of
                        Inl err \<Rightarrow> LogVerificationMailError e err
                      | Inr info \<Rightarrow> LogVerificationMailSent e info])"
  using assms by (simp_all add: request_verification_def sendVerificationEmail_def falsy_def Let_def split: option.splits)

lemma verify_success_iff:
  "(response (verify s email tok now) = RedirectVerified e) =
   (email = Some e \<and> e \<noteq> [] \<and> \<not> falsy tok \<and>
    (\<exists>pv. Map_get (pendingVerifications s) e = Some pv \<and> Some (token pv) = tok))"
  by (cases email; cases tok) (auto simp: verify_def falsy_def split: option.splits)

lemma verify_success_state:
  "response (verify s email tok now) = RedirectVerified e \<Longrightarrow>
   new_state (verify s email tok now) =
     s\<lparr> pendingVerifications := snd (Map_delete (pendingVerifications s) e),
        verifiedEmails := Map_set (verifiedEmails s) e \<lparr> verified = True, verified_at = now \<rparr> \<rparr>"
  by (cases email; cases tok) (auto simp: verify_def falsy_def split: option.splits if_splits)

lemma verify_failure_state:
  "(\<forall>e. response (verify s email tok now) \<noteq> RedirectVerified e) \<Longrightarrow>
   new_state (verify s email tok now) = s"
  by (cases email; cases tok) (auto simp: verify_def falsy_def split: option.splits if_splits)

lemma verify_ws_success_iff:
  "(response (verify_ws s email tok) = RedirectVerified e) =
   (email = Some e \<and> (\<exists>pv. Map_get (pendingVerifications s) e = Some pv \<and> Some (token pv) = tok))"
  by (cases email; cases tok) (auto simp: verify_ws_def split: option.splits)

lemma verify_ws_success_state:
  "response (verify_ws s email tok) = RedirectVerified e \<Longrightarrow>
   new_state (verify_ws s email tok) =
     s\<lparr> pendingVerifications := snd (Map_delete (pendingVerifications s) e) \<rparr>"
  by (cases email; cases tok) (auto simp: verify_ws_def split: option.splits if_splits)

lemma verify_ws_failure_state:
  "(\<forall>e. response (verify_ws s email tok) \<noteq> RedirectVerified e) \<Longrightarrow>
   new_state (verify_ws s email tok) = s"
  by (cases email; cases tok) (auto simp: verify_ws_def split: option.splits if_splits)

section \<open>Properties of the stock composer\<close>

lemma foldl_push:
  "foldl (\<lambda>acc category.
            case data category of Some items \<Rightarrow> acc @ f items | None \<Rightarrow> acc) acc0 cats
   = acc0 @ concat (map (\<lambda>c. case data c of Some items \<Rightarrow> f items | None \<Rightarrow> []) cats)"
  by (induction cats arbitrary: acc0) (auto split: option.splits)

lemma allStockItems_concat:
  "allStockItems cats data =
     concat (map (\<lambda>c. case data c of Some items \<Rightarrow> items | None \<Rightarrow> []) cats)"
  unfolding allStockItems_def
  using foldl_push [where data = data and f = "\<lambda>x. x" and ?acc0.0 = "[]" and cats = cats]
  by simp

lemma allStockItems_ws_concat:
  "allStockItems_ws cats data =
     concat (map (\<lambda>c. case data c of
                         Some items \<Rightarrow> filter (\<lambda>item. item_id item \<noteq> []) items
                       | None \<Rightarrow> []) cats)"
  unfolding allStockItems_ws_def
  using foldl_push [where data = data and f = "filter (\<lambda>item. item_id item \<noteq> [])"
                      and ?acc0.0 = "[]" and cats = cats]
  by simp

lemma stripItems_apply:
  "stripItems cats data c =
     (if c \<in> set cats then map_option (filter (\<lambda>item. item_id item \<noteq> [])) (data c)
      else data c)"
  unfolding stripItems_def
proof (induction cats arbitrary: data)
  case Nil
  then show ?case by simp
next
  case (Cons a cats)
  show ?case
    by (cases "data a") (auto simp: Cons.IH option.map_comp comp_def split: option.splits)
qed

lemma allStockItems_ws_stripped:
  "allStockItems_ws cats (stripItems cats raw) = allStockItems cats (stripItems cats raw)"
  unfolding allStockItems_ws_concat allStockItems_concat
  by (rule arg_cong [where f = concat], rule map_cong, simp)
     (auto simp: stripItems_apply split: option.splits)

lemma allStockItems_stripped_ids:
  "item \<in> set (allStockItems cats (stripItems cats raw)) \<Longrightarrow> item_id item \<noteq> []"
  unfolding allStockItems_concat
  by (auto simp: stripItems_apply split: option.splits if_splits)

lemma buildStockHtmlEmail_selects:
  "buildStockHtmlEmail s data e =
     (case Map_get (subscriptions s) e of
        None \<Rightarrow> None
      | Some watch \<Rightarrow>
          (let hits = filter (\<lambda>item. item_id item \<in> watch \<and> 0 < quantity item)
                        (concat (map (\<lambda>c. case data c of Some items \<Rightarrow> items | None \<Rightarrow> [])
                                     stock_categories))
           in if hits = [] then None
              else Some (StockHtml (map (stockRow imageUrl (itemInfo s)) hits) e)))"
  by (simp add: buildStockHtmlEmail_def allStockItems_concat Let_def split: option.splits)

lemma buildStockHtmlEmail_ws_selects:
  "buildStockHtmlEmail_ws s (stripItems stock_categories_ws raw) e =
     (case Map_get (subscriptions s) e of
        None \<Rightarrow> None
      | Some watch \<Rightarrow>
          (let hits = filter (\<lambda>item. item_id item \<in> watch \<and> 0 < quantity item)
                        (concat (map (\<lambda>c. case stripItems stock_categories_ws raw c of
                                             Some items \<Rightarrow> items | None \<Rightarrow> [])
                                     stock_categories_ws))
           in if hits = [] then None
              else Some (StockHtml (map (stockRow imageUrl_ws (itemInfo s)) hits) e)))"
proof -
  have "filter (\<lambda>x. item_id x \<in> w \<and> 0 < quantity x \<and> item_id x \<noteq> [])
          (allStockItems cats (stripItems cats raw))
        = filter (\<lambda>item. item_id item \<in> w \<and> 0 < quantity item)
          (allStockItems cats (stripItems cats raw))" for w cats
    by (rule filter_cong) (auto dest: allStockItems_stripped_ids)
  then show ?thesis
    by (simp add: buildStockHtmlEmail_ws_def allStockItems_ws_stripped
          allStockItems_concat [symmetric] Let_def split: option.splits)
qed

text \<open>
  On a snapshot that was not stripped, the composer of the WebSocket variant leaves out
  the items without \<^verbatim>\<open>item_id\<close> by itself.
\<close>

lemma buildStockHtmlEmail_ws_unstripped:
  "buildStockHtmlEmail_ws s data e =
     (case Map_get (subscriptions s) e of
        None \<Rightarrow> None
      | Some watch \<Rightarrow>
          (let hits = filter (\<lambda>item. item_id item \<in> watch \<and> 0 < quantity item
                                   \<and> item_id item \<noteq> [])
                        (concat (map (\<lambda>c. case data c of Some items \<Rightarrow> items | None \<Rightarrow> [])
                                     stock_categories_ws))
           in if hits = [] then None
              else Some (StockHtml (map (stockRow imageUrl_ws (itemInfo s)) hits) e)))"
proof -
  have flat: "allStockItems_ws cats data =
                filter (\<lambda>item. item_id item \<noteq> []) (allStockItems cats data)" for cats
    unfolding allStockItems_ws_concat allStockItems_concat
    by (induction cats) (auto split: option.splits)
  have "filter (\<lambda>x. item_id x \<in> w \<and> 0 < quantity x \<and> item_id x \<noteq> [] \<and> item_id x \<noteq> []) xs
        = filter (\<lambda>x. item_id x \<in> w \<and> 0 < quantity x \<and> item_id x \<noteq> []) xs"
    for w and xs :: "StockItem list"
    by (rule filter_cong) auto
  then show ?thesis
    by (auto simp: buildStockHtmlEmail_ws_def flat allStockItems_concat [symmetric] Let_def
             conj_commute conj_left_commute split: option.splits cong: filter_cong)
qed

text \<open>
  C1. For every stock snapshot and every subscriber, the composer selects exactly the
  items that are in the subscriber's watch set and have a quantity above zero, taken from
  the five stock categories flattened in their fixed order; when no item is selected
  (or the recipient holds no subscription) it returns \<^verbatim>\<open>null\<close>, here \<open>None\<close>.
  The first conjunct is the polling variant on an arbitrary payload. The second is the
  WebSocket variant on the snapshot its message handler stores and fans out, which is the
  parsed message with the items lacking an \<^verbatim>\<open>item_id\<close> removed. Each variant has
  its own list of the five categories; they differ in the name of the fifth.
\<close>

theorem stock_composer_selects_watched_in_stock:
  "buildStockHtmlEmail s data e =
     (case Map_get (subscriptions s) e of
        None \<Rightarrow> None
      | Some watch \<Rightarrow>
          (let hits = filter (\<lambda>item. item_id item \<in> watch \<and> 0 < quantity item)
                        (concat (map (\<lambda>c. case data c of Some items \<Rightarrow> items | None \<Rightarrow> [])
                                     stock_categories))
           in if hits = [] then None
              else Some (StockHtml (map (stockRow imageUrl (itemInfo s)) hits) e)))
   \<and>
   buildStockHtmlEmail_ws t (stripItems stock_categories_ws raw) e =
     (case Map_get (subscriptions t) e of
        None \<Rightarrow> None
      | Some watch \<Rightarrow>
          (let hits = filter (\<lambda>item. item_id item \<in> watch \<and> 0 < quantity item)
                        (concat (map (\<lambda>c. case stripItems stock_categories_ws raw c of
                                             Some items \<Rightarrow> items | None \<Rightarrow> [])
                                     stock_categories_ws))
           in if hits = [] then None
              else Some (StockHtml (map (stockRow imageUrl_ws (itemInfo t)) hits) e)))"
  using buildStockHtmlEmail_selects [of s data e] buildStockHtmlEmail_ws_selects [of t raw e]
  by (rule conjI)

text \<open>
  The example of the watch set carrot and tomato: with 3 carrots, no tomatoes and 5
  trowels in stock the mail lists the carrots only; with the carrots sold out there is no
  mail. In the WebSocket variant the item without identifier is not in the stored
  snapshot, and the event shop is one of the categories.
\<close>

lemmas stock_eval_defs =
  ex_subscribed_def ex_stock_def ex_stock_out_def ex_stock_ws_def initial_state_def
  Map_get_def stock_categories_def stock_categories_ws_def stockRow_def imageUrl_def
  imageUrl_ws_def stripItems_def Let_def

theorem stock_composer_selects_watched_in_stock_witness:
  "buildStockHtmlEmail ex_subscribed ex_stock ''a@x.com''
     = Some (StockHtml [\<lparr> row_icon = ''https://image.joshlei.com/carrot.png'',
                          row_name = ''Carrot'', row_qty = 3 \<rparr>] ''a@x.com'')
   \<and> buildStockHtmlEmail ex_subscribed ex_stock_out ''a@x.com'' = None
   \<and> buildStockHtmlEmail_ws ex_subscribed (stripItems stock_categories_ws ex_stock_ws) ''a@x.com''
     = Some (StockHtml
               [\<lparr> row_icon = ''https://api.joshlei.com/v2/growagarden/image/carrot'',
                   row_name = ''Carrot'', row_qty = 3 \<rparr>,
                \<lparr> row_icon = ''https://api.joshlei.com/v2/growagarden/image/tomato'',
                   row_name = ''tomato'', row_qty = 4 \<rparr>] ''a@x.com'')"
  using stock_composer_selects_watched_in_stock
          [of ex_subscribed ex_stock "''a@x.com''" ex_subscribed ex_stock_ws]
        stock_composer_selects_watched_in_stock
          [of ex_subscribed ex_stock_out "''a@x.com''" ex_subscribed ex_stock_ws]
  by (simp add: stock_eval_defs)

section \<open>Evaluating the examples\<close>

lemmas eval_defs =
  step_def request_verification_def sendVerificationEmail_def verify_def subscribe_def
  unsub_def check_verification_def opt_trim_def js_trim_def js_space_def falsy_def
  bodyItems_def Map_get_def Map_has_def Map_set_def Map_delete_def Map_keys_def
  initial_state_def Let_def reply_def ex_relay_def ex_relay_down_def ex_signup_def
  ex_subscribed_def ex_pending_def ex_two_pending_def ex_requested_def AList.delete_eq expirationTime_def

lemma ex_signup_run: "run (\<lambda>p. p) ex_relay initial_state ex_signup = ex_subscribed"
  by (simp add: run_def eval_defs)

lemma ex_raining_run:
  "run (\<lambda>p. p) ex_relay initial_state (ex_signup @ [PollWeather (Fetched ex_rain)]) = ex_raining"
proof -
  have "run (\<lambda>p. p) ex_relay initial_state (ex_signup @ [PollWeather (Fetched ex_rain)])
        = step (\<lambda>p. p) ex_relay (run (\<lambda>p. p) ex_relay initial_state ex_signup)
            (PollWeather (Fetched ex_rain))"
    by (simp add: run_def)
  also have "\<dots> = step (\<lambda>p. p) ex_relay ex_subscribed (PollWeather (Fetched ex_rain))"
    by (simp only: ex_signup_run)
  also have "\<dots> = ex_raining"
    by (simp add: ex_raining_def step_def pollWeatherAPI_def hasDataChanged_def
          ex_subscribed_def initial_state_def activeEventOf_def ex_rain_def Let_def)
  finally show ?thesis .
qed

lemma ex_requested_pending: "ex_requested = ex_pending"
  by (simp add: eval_defs)

section \<open>Change detection\<close>

lemma pollStockAPI_branch:
  "(LogStockChanged \<in> set (logs (pollStockAPI stringify tr s (Fetched data) infoResp))) =
     hasDataChanged (latestStockDataJSON s) (Some (stringify (StockPayload data)))"
  "(logs (pollStockAPI stringify tr s (Fetched data) infoResp) = [LogStockNoChange]) =
     (\<not> hasDataChanged (latestStockDataJSON s) (Some (stringify (StockPayload data))))"
  by (simp_all add: pollStockAPI_def Let_def)

text \<open>
  C3. The change detector compares the serialised forms: for payloads \<open>P1\<close> and \<open>P2\<close>
  serialised by the same function, it reports a change exactly when the serialised forms
  differ (and always on the first poll, when nothing was stored). In the stock poll this
  decides the branch: with the serialisation of \<open>D1\<close> stored, polling \<open>D2\<close> takes the
  changed branch exactly when the serialised forms differ, and otherwise leaves the state
  as it was, sends nothing and logs that nothing changed.
\<close>

theorem change_detector_compares_serialised_forms:
  "hasDataChanged (Some (stringify P1)) (Some (stringify P2)) = (stringify P1 \<noteq> stringify P2)
   \<and> hasDataChanged None (Some (stringify P2))
   \<and> (LogStockChanged \<in> set (logs (pollStockAPI stringify tr
          (s\<lparr> latestStockDataJSON := Some (stringify (StockPayload D1)) \<rparr>)
          (Fetched D2) infoResp)))
       = (stringify (StockPayload D1) \<noteq> stringify (StockPayload D2))
   \<and> (pollStockAPI stringify tr
          (s\<lparr> latestStockDataJSON := Some (stringify (StockPayload D1)) \<rparr>)
          (Fetched D2) infoResp
        = \<lparr> new_state = s\<lparr> latestStockDataJSON := Some (stringify (StockPayload D1)) \<rparr>,
            mails = [], logs = [LogStockNoChange] \<rparr>)
       = (stringify (StockPayload D1) = stringify (StockPayload D2))"
  by (auto simp add: pollStockAPI_branch hasDataChanged_def pollStockAPI_def Let_def)

section \<open>Subscribers are verified\<close>

lemma step_relay_independent: "step stringify tr s ev = step stringify tr' s ev"
  by (cases ev)
     (simp_all add: step_def request_verification_relay_independent pollStockAPI_def
        pollWeatherAPI_def Let_def split: fetched.splits option.splits)

text \<open>
  C4. In the variant that enforces verification, every state the process reaches from its
  initial state, by any sequence of timer ticks and requests, satisfies: every email that
  holds a subscription is a key of the verified-emails map.
\<close>

theorem subscribers_are_verified:
  "Map_has (subscriptions (run stringify tr initial_state evs)) e \<Longrightarrow>
   Map_has (verifiedEmails (run stringify tr initial_state evs)) e"
  using run_invariants(2) [of stringify tr evs]
  by (simp add: subscribers_verified_def Map_has_keys)

text \<open>After the example sign-up, the subscriber is subscribed and verified.\<close>

theorem subscribers_are_verified_witness:
  "Map_has (subscriptions (run (\<lambda>p. p) ex_relay initial_state ex_signup)) ''a@x.com'' \<and>
   Map_has (verifiedEmails (run (\<lambda>p. p) ex_relay initial_state ex_signup)) ''a@x.com''"
proof -
  have sub: "Map_has (subscriptions (run (\<lambda>p. p) ex_relay initial_state ex_signup)) ''a@x.com''"
    by (simp add: ex_signup_run) (simp add: eval_defs)
  from sub subscribers_are_verified [OF sub] show ?thesis by (rule conjI)
qed

section \<open>The verification token\<close>



lemma verify_needs_entry:
  "Map_get (pendingVerifications s) e = None \<Longrightarrow>
   \<not> verified_redirect (response (verify s (Some e) tok now))"
  by (simp add: verify_def verified_redirect_def)

lemma step_keeps_unusable:
  assumes "unusable s e t" "\<not> reissues e t ev"
  shows "unusable (step stringify tr s ev) e t"
proof (cases ev)
  case (ExpirySweep now)
  then show ?thesis
    using assms(1) sweep_lookup_weak [of now "pendingVerifications s" e]
    by (auto simp add: step_def expirySweep_pending unusable_def)
next
  case (PostRequestVerification rawEmail tok now)
  then show ?thesis using assms
    by (cases rawEmail)
       (auto simp add: step_def request_verification_pending Map_get_set falsy_def
          opt_trim_def unusable_def)
next
  case (GetVerify email tok now)
  then show ?thesis using assms(1)
    by (simp add: step_def verify_maps Map_get_delete unusable_def)
qed (use assms(1) in \<open>simp_all add: step_def unusable_def\<close>)

lemma run_keeps_unusable:
  assumes "unusable s e t" "\<forall>ev \<in> set evs. \<not> reissues e t ev"
  shows "unusable (run stringify tr s evs) e t"
  using assms(2) unfolding run_def
  by (induction evs rule: rev_induct) (simp_all add: assms(1) step_keeps_unusable)

lemma verify_unusable:
  "unusable s e t \<Longrightarrow> \<not> verified_redirect (response (verify s (Some e) (Some t) now))"
  by (auto simp add: verify_def verified_redirect_def unusable_def split: option.splits)

lemma verified_redirect_iff: "verified_redirect r = (\<exists>e. r = RedirectVerified e)"
  by (cases r) (simp_all add: verified_redirect_def)

text \<open>
  C5. The verification token is single-use. A verify call succeeds only if a pending
  entry exists for the email and its token equals the token of the call. After a
  successful call, the same call fails when repeated, at once and after any run of
  events in which no verification request for that email draws the same token again.
  A failed call leaves the state as it was. The same holds in the WebSocket variant
  (for the repeated call).
\<close>

theorem verification_token_single_use:
  "(verified_redirect (response (verify s email tok now)) \<longrightarrow>
      (\<exists>e pv. email = Some e \<and> Map_get (pendingVerifications s) e = Some pv
               \<and> tok = Some (token pv)) \<and>
      \<not> verified_redirect
          (response (verify (new_state (verify s email tok now)) email tok now')) \<and>
      (\<forall>evs. (\<forall>ev \<in> set evs. \<not> reissues (the email) (the tok) ev) \<longrightarrow>
         \<not> verified_redirect
             (response (verify (run stringify tr (new_state (verify s email tok now)) evs)
                          email tok now'))))
   \<and> (\<not> verified_redirect (response (verify s email tok now)) \<longrightarrow>
        new_state (verify s email tok now) = s)
   \<and> (verified_redirect (response (verify_ws t email tok)) \<longrightarrow>
        (\<exists>e pv. email = Some e \<and> Map_get (pendingVerifications t) e = Some pv
                 \<and> tok = Some (token pv)) \<and>
        \<not> verified_redirect
            (response (verify_ws (new_state (verify_ws t email tok)) email tok)))
   \<and> (\<not> verified_redirect (response (verify_ws t email tok)) \<longrightarrow>
        new_state (verify_ws t email tok) = t)"
proof (intro conjI impI allI)
  assume ok: "verified_redirect (response (verify s email tok now))"
  then obtain e where e: "response (verify s email tok now) = RedirectVerified e"
    by (auto simp: verified_redirect_iff)
  then have em: "email = Some e" and
    pv: "\<exists>pv. Map_get (pendingVerifications s) e = Some pv \<and> Some (token pv) = tok"
    by (simp_all add: verify_success_iff)
  from em pv show "\<exists>e pv. email = Some e \<and> Map_get (pendingVerifications s) e = Some pv
               \<and> tok = Some (token pv)" by auto
  have gone: "Map_get (pendingVerifications (new_state (verify s email tok now))) e = None"
    by (simp add: verify_success_state [OF e] Map_get_delete)
  then show "\<not> verified_redirect
          (response (verify (new_state (verify s email tok now)) email tok now'))"
    unfolding em by (rule verify_needs_entry)
  from pv obtain t where t: "tok = Some t" by auto
  fix evs
  assume "\<forall>ev \<in> set evs. \<not> reissues (the email) (the tok) ev"
  moreover have "unusable (new_state (verify s email tok now)) e t"
    using gone by (simp add: unusable_def)
  ultimately have "unusable (run stringify tr (new_state (verify s email tok now)) evs) e t"
    using em t by (simp add: run_keeps_unusable)
  then show "\<not> verified_redirect
             (response (verify (run stringify tr (new_state (verify s email tok now)) evs)
                          email tok now'))"
    unfolding em t by (rule verify_unusable)
next
  assume "\<not> verified_redirect (response (verify s email tok now))"
  then show "new_state (verify s email tok now) = s"
    by (simp add: verified_redirect_iff verify_failure_state)
next
  assume ok: "verified_redirect (response (verify_ws t email tok))"
  then obtain e where e: "response (verify_ws t email tok) = RedirectVerified e"
    by (auto simp: verified_redirect_iff)
  then have em: "email = Some e" and
    pv: "\<exists>pv. Map_get (pendingVerifications t) e = Some pv \<and> Some (token pv) = tok"
    by (simp_all add: verify_ws_success_iff)
  from em pv show "\<exists>e pv. email = Some e \<and> Map_get (pendingVerifications t) e = Some pv
               \<and> tok = Some (token pv)" by auto
  have "Map_get (pendingVerifications (new_state (verify_ws t email tok))) e = None"
    by (simp add: verify_ws_success_state [OF e] Map_get_delete)
  then show "\<not> verified_redirect
            (response (verify_ws (new_state (verify_ws t email tok)) email tok))"
    unfolding em by (simp add: verify_ws_def verified_redirect_def)
next
  assume "\<not> verified_redirect (response (verify_ws t email tok))"
  then show "new_state (verify_ws t email tok) = t"
    by (simp add: verified_redirect_iff verify_ws_failure_state)
qed

text \<open>The token \<open>t2\<close> verifies the pending address once; another token does not.\<close>

theorem verification_token_single_use_witness:
  "verified_redirect (response (verify ex_pending (Some ''b@x.com'') (Some ''t2'') 5000))
   \<and> \<not> verified_redirect
         (response (verify (new_state (verify ex_pending (Some ''b@x.com'') (Some ''t2'') 5000))
                      (Some ''b@x.com'') (Some ''t2'') 6000))
   \<and> \<not> verified_redirect
         (response (verify
            (run (\<lambda>p. p) ex_relay
               (new_state (verify ex_pending (Some ''b@x.com'') (Some ''t2'') 5000))
               [PostRequestVerification (Some ''b@x.com'') ''t9'' 7000, ExpirySweep 3600000])
            (Some ''b@x.com'') (Some ''t2'') 6000))
   \<and> \<not> verified_redirect (response (verify ex_pending (Some ''b@x.com'') (Some ''t1'') 5000))
   \<and> new_state (verify ex_pending (Some ''b@x.com'') (Some ''t1'') 5000) = ex_pending
   \<and> verified_redirect (response (verify_ws ex_pending (Some ''b@x.com'') (Some ''t2'')))
   \<and> \<not> verified_redirect
         (response (verify_ws (new_state (verify_ws ex_pending (Some ''b@x.com'') (Some ''t2'')))
                      (Some ''b@x.com'') (Some ''t2'')))"
proof -
  have ok: "verified_redirect (response (verify ex_pending (Some ''b@x.com'') (Some ''t2'') 5000))"
    by (simp add: verified_redirect_def eval_defs)
  have bad: "\<not> verified_redirect (response (verify ex_pending (Some ''b@x.com'') (Some ''t1'') 5000))"
    by (simp add: verified_redirect_def eval_defs)
  have ok_ws: "verified_redirect (response (verify_ws ex_pending (Some ''b@x.com'') (Some ''t2'')))"
    by (simp add: verified_redirect_def verify_ws_def eval_defs)
  note t = verification_token_single_use
             [of ex_pending "Some ''b@x.com''" "Some ''t2''" 5000 6000 "\<lambda>p. p" ex_relay ex_pending]
  note f = verification_token_single_use
             [of ex_pending "Some ''b@x.com''" "Some ''t1''" 5000 6000 "\<lambda>p. p" ex_relay ex_pending]
  have fresh: "\<forall>ev \<in> set [PostRequestVerification (Some ''b@x.com'') ''t9'' 7000,
                              ExpirySweep 3600000].
                 \<not> reissues (the (Some ''b@x.com'')) (the (Some ''t2'')) ev"
    by simp
  from ok t have
    "\<forall>evs. (\<forall>ev \<in> set evs. \<not> reissues (the (Some ''b@x.com'')) (the (Some ''t2'')) ev) \<longrightarrow>
       \<not> verified_redirect
           (response (verify
              (run (\<lambda>p. p) ex_relay
                 (new_state (verify ex_pending (Some ''b@x.com'') (Some ''t2'') 5000)) evs)
              (Some ''b@x.com'') (Some ''t2'') 6000))"
    by blast
  with fresh have later:
    "\<not> verified_redirect
         (response (verify
            (run (\<lambda>p. p) ex_relay
               (new_state (verify ex_pending (Some ''b@x.com'') (Some ''t2'') 5000))
               [PostRequestVerification (Some ''b@x.com'') ''t9'' 7000, ExpirySweep 3600000])
            (Some ''b@x.com'') (Some ''t2'') 6000))"
    by blast
  from ok bad ok_ws later t f show ?thesis by blast
qed

section \<open>Subscribing and unsubscribing\<close>

text \<open>
  C7. Subscribe replaces, it does not merge: for an email \<open>e\<close> (given with or without
  surrounding white space) and two non-empty item lists, subscribing to the first and
  then to the second leaves exactly the items of the second as the stored watch set of
  \<open>e\<close>. The hypotheses are those under which the handler accepts a request: an email
  is given, the item list is not empty and, in the polling variant, \<open>e\<close> is verified
  (the WebSocket variant asks for no verification). A request that is not accepted
  changes nothing (\<open>subscribe_unverified\<close>).
\<close>

theorem subscribe_replaces_watch_set:
  assumes "opt_trim rawEmail = Some e" and "e \<noteq> []"
      and "bodyItems f1 \<noteq> []" and "bodyItems f2 \<noteq> []"
      and "Map_has (verifiedEmails s) e"
  shows "Map_get (subscriptions
            (new_state (subscribe (new_state (subscribe s rawEmail f1)) rawEmail f2))) e
           = Some (set (bodyItems f2))
         \<and> response (subscribe s rawEmail f1) = Json 200 True ''Subscription successful!''
         \<and> response (subscribe (new_state (subscribe s rawEmail f1)) rawEmail f2)
             = Json 200 True ''Subscription successful!''
         \<and> Map_get (subscriptions
              (new_state (subscribe_ws (new_state (subscribe_ws t rawEmail f1)) rawEmail f2))) e
             = Some (set (bodyItems f2))
         \<and> response (subscribe_ws t rawEmail f1) = RedirectSubscribed
         \<and> response (subscribe_ws (new_state (subscribe_ws t rawEmail f1)) rawEmail f2)
             = RedirectSubscribed"
proof -
  have v: "Map_has (verifiedEmails (new_state (subscribe s rawEmail f1))) e"
    using assms(5) by simp
  show ?thesis
    using assms v
    by (simp add: subscribe_twice subscribe_ws_twice subscribe_accepts(2) subscribe_ws_accepts(2))
qed

text \<open>Subscribing to carrot and then to trowel leaves the watch set trowel.\<close>

theorem subscribe_replaces_watch_set_witness:
  "Map_get (subscriptions
      (new_state (subscribe (new_state (subscribe ex_subscribed (Some ''a@x.com '')
                                          (ItemsArray [''carrot''])))
                    (Some ''a@x.com '') (ItemsArray [''trowel''])))) ''a@x.com''
     = Some {''trowel''}
   \<and> Map_get (subscriptions
        (new_state (subscribe_ws (new_state (subscribe_ws ex_pending (Some ''a@x.com '')
                                              (ItemsArray [''carrot''])))
                      (Some ''a@x.com '') (ItemsArray [''trowel''])))) ''a@x.com''
     = Some {''trowel''}"
proof -
  have h: "opt_trim (Some ''a@x.com '') = Some ''a@x.com''" "''a@x.com'' \<noteq> []"
    "bodyItems (ItemsArray [''carrot'']) \<noteq> []" "bodyItems (ItemsArray [''trowel'']) \<noteq> []"
    "Map_has (verifiedEmails ex_subscribed) ''a@x.com''"
    by (simp_all add: eval_defs)
  have items: "set (bodyItems (ItemsArray [''trowel''])) = {''trowel''}"
    by (simp add: bodyItems_def)
  show ?thesis
    using subscribe_replaces_watch_set [OF h, where t = ex_pending]
    unfolding items by blast
qed

text \<open>
  C8. Unsubscribing an email that holds no subscription answers not-found and leaves the
  whole state (subscriptions, verified emails, pending verifications, last-seen
  snapshots) as it was; unsubscribing a subscribed email removes its subscription.
  The first two conjuncts are the polling variant, the last two the WebSocket variant.
  (Without an email the polling variant answers that an email is required.)
\<close>

theorem unsubscribe_unknown_changes_nothing:
  assumes "opt_trim rawEmail = Some e" and "e \<noteq> []"
  shows "(\<not> Map_has (subscriptions s) e \<longrightarrow>
            new_state (unsub s rawEmail) = s \<and>
            response (unsub s rawEmail) = Text 200 ''Email not found in subscriptions.'')
       \<and> (Map_has (subscriptions s) e \<longrightarrow>
            \<not> Map_has (subscriptions (new_state (unsub s rawEmail))) e \<and>
            response (unsub s rawEmail) = RedirectUnsubscribed)
       \<and> (\<not> Map_has (subscriptions t) e \<longrightarrow>
            new_state (unsub_ws t rawEmail) = t \<and>
            response (unsub_ws t rawEmail) = Text 404 ''Email not found.'')
       \<and> (Map_has (subscriptions t) e \<longrightarrow>
            \<not> Map_has (subscriptions (new_state (unsub_ws t rawEmail))) e \<and>
            response (unsub_ws t rawEmail) = RedirectUnsubscribed)"
  using assms unsub_absent [of rawEmail e s] unsub_present(1,2) [of rawEmail e s]
    unsub_ws_absent [of rawEmail t] unsub_ws_present(1,2) [of rawEmail e t]
  by auto

text \<open>In the example state one address is subscribed and the other is not.\<close>

theorem unsubscribe_unknown_changes_nothing_witness:
  "\<not> Map_has (subscriptions ex_subscribed) ''b@x.com''
   \<and> new_state (unsub ex_subscribed (Some ''b@x.com'')) = ex_subscribed
   \<and> response (unsub ex_subscribed (Some ''b@x.com'')) = Text 200 ''Email not found in subscriptions.''
   \<and> new_state (unsub_ws ex_subscribed (Some ''b@x.com'')) = ex_subscribed
   \<and> response (unsub_ws ex_subscribed (Some ''b@x.com'')) = Text 404 ''Email not found.''
   \<and> Map_has (subscriptions ex_subscribed) ''a@x.com''
   \<and> \<not> Map_has (subscriptions (new_state (unsub ex_subscribed (Some ''a@x.com'')))) ''a@x.com''
   \<and> \<not> Map_has (subscriptions (new_state (unsub_ws ex_subscribed (Some ''a@x.com'')))) ''a@x.com''"
proof -
  have h: "opt_trim (Some ''b@x.com'') = Some ''b@x.com''" "''b@x.com'' \<noteq> []"
     "opt_trim (Some ''a@x.com'') = Some ''a@x.com''" "''a@x.com'' \<noteq> []"
     "\<not> Map_has (subscriptions ex_subscribed) ''b@x.com''"
     "Map_has (subscriptions ex_subscribed) ''a@x.com''"
    by (simp_all add: eval_defs)
  show ?thesis
    using h(5,6) unsubscribe_unknown_changes_nothing [OF h(1,2), of ex_subscribed ex_subscribed]
      unsubscribe_unknown_changes_nothing [OF h(3,4), of ex_subscribed ex_subscribed]
    by blast
qed

section \<open>Requesting a verification\<close>

text \<open>
  C9. The new state and the HTTP response of a verification request do not depend on
  what the mail relay does. An accepted request (an email is given and holds no
  subscription) stores the new token with the request time under the email, replacing
  any earlier pending entry, and answers success; a relay failure shows in the log lines
  only. The statement is about the polling variant, whose handler does not wait for the
  relay.
\<close>

theorem request_verification_ignores_delivery:
  "new_state (request_verification tr s rawEmail tok now)
     = new_state (request_verification tr' s rawEmail tok now)
   \<and> response (request_verification tr s rawEmail tok now)
     = response (request_verification tr' s rawEmail tok now)
   \<and> (opt_trim rawEmail = Some e \<and> e \<noteq> [] \<and> \<not> Map_has (subscriptions s) e \<longrightarrow>
        response (request_verification tr s rawEmail tok now)
          = Json 200 True ''Verification email sent. Please check your inbox.'' \<and>
        new_state (request_verification tr s rawEmail tok now)
          = s\<lparr> pendingVerifications :=
                 Map_set (pendingVerifications s) e \<lparr> token = tok, timestamp = now \<rparr> \<rparr> \<and>
        Map_get (pendingVerifications (new_state (request_verification tr s rawEmail tok now))) e
          = Some \<lparr> token = tok, timestamp = now \<rparr> \<and>
        logs (request_verification tr s rawEmail tok now) =
          LogProcessing e #
          (case smtp_verify tr of
             Some err \<Rightarrow> [LogSmtpError err]
           | None \<Rightarrow>
               [LogSmtpVerified,
                case smtp_sendMail tr \<lparr> mail_to = e, mail_subject = VerifySubject,
                                        mail_html = VerificationHtml e tok \<rparr> of
                  Inl err \<Rightarrow> LogVerificationMailError e err
                | Inr info \<Rightarrow> LogVerificationMailSent e info]))"
  using request_verification_relay_independent [of tr s rawEmail tok now tr']
    request_verification_accepts [of rawEmail e s tr tok now]
    request_verification_logs [of rawEmail e s tr tok now]
  by (simp add: Map_get_set)

text \<open>With the relay down the request still succeeds and replaces the pending entry.\<close>

theorem request_verification_ignores_delivery_witness:
  "response (request_verification ex_relay_down ex_pending (Some ''b@x.com'') ''t3'' 7000)
     = Json 200 True ''Verification email sent. Please check your inbox.''
   \<and> Map_get (pendingVerifications
         (new_state (request_verification ex_relay_down ex_pending (Some ''b@x.com'') ''t3'' 7000)))
         ''b@x.com''
     = Some \<lparr> token = ''t3'', timestamp = 7000 \<rparr>
   \<and> logs (request_verification ex_relay_down ex_pending (Some ''b@x.com'') ''t3'' 7000)
     = [LogProcessing ''b@x.com'', LogSmtpError ''ECONNREFUSED'']
   \<and> new_state (request_verification ex_relay_down ex_pending (Some ''b@x.com'') ''t3'' 7000)
     = new_state (request_verification ex_relay ex_pending (Some ''b@x.com'') ''t3'' 7000)"
proof -
  have h: "opt_trim (Some ''b@x.com'') = Some ''b@x.com'' \<and> ''b@x.com'' \<noteq> [] \<and>
           \<not> Map_has (subscriptions ex_pending) ''b@x.com''"
    by (simp add: eval_defs)
  have down: "(case smtp_verify ex_relay_down of
                 Some err \<Rightarrow> [LogSmtpError err]
               | None \<Rightarrow>
                   [LogSmtpVerified,
                    case smtp_sendMail ex_relay_down
                           \<lparr> mail_to = ''b@x.com'', mail_subject = VerifySubject,
                             mail_html = VerificationHtml ''b@x.com'' ''t3'' \<rparr> of
                      Inl err \<Rightarrow> LogVerificationMailError ''b@x.com'' err
                    | Inr info \<Rightarrow> LogVerificationMailSent ''b@x.com'' info])
              = [LogSmtpError ''ECONNREFUSED'']"
    by (simp add: ex_relay_down_def)
  show ?thesis
    using h request_verification_ignores_delivery
            [of ex_relay_down ex_pending "Some ''b@x.com''" "''t3''" 7000 ex_relay "''b@x.com''"]
    unfolding down by blast
qed

section \<open>The expiry sweep\<close>

text \<open>
  C10. The expiry sweep leaves the subscriptions, the verified emails and the last-seen
  snapshot variables as they are and sends nothing. It only deletes pending entries;
  the entries it deletes are those whose age at the time of the sweep is strictly more
  than 24 hours, and every entry aged 24 hours or less stays, unchanged and in place.
  (The loop is the same in the polling and in the WebSocket variant.)
\<close>

theorem expiry_sweep_frame:
  "subscriptions (new_state (expirySweep s now)) = subscriptions s
   \<and> verifiedEmails (new_state (expirySweep s now)) = verifiedEmails s
   \<and> latestStockDataJSON (new_state (expirySweep s now)) = latestStockDataJSON s
   \<and> latestStockDataObj (new_state (expirySweep s now)) = latestStockDataObj s
   \<and> latestWeatherDataJSON (new_state (expirySweep s now)) = latestWeatherDataJSON s
   \<and> latestWeatherDataObj (new_state (expirySweep s now)) = latestWeatherDataObj s
   \<and> mails (expirySweep s now) = []
   \<and> set (pendingVerifications (new_state (expirySweep s now))) \<subseteq> set (pendingVerifications s)
   \<and> (distinct (Map_keys (pendingVerifications s)) \<longrightarrow>
        pendingVerifications (new_state (expirySweep s now))
          = filter (\<lambda>p. \<not> now - timestamp (snd p) > expirationTime) (pendingVerifications s) \<and>
        (\<forall>e pv. Map_get (pendingVerifications s) e = Some pv \<longrightarrow>
           Map_get (pendingVerifications (new_state (expirySweep s now))) e
             = (if now - timestamp pv > expirationTime then None else Some pv)))"
proof -
  have "Map_get (fst (sweepPending now (pendingVerifications s))) e
          = (if now - timestamp pv > expirationTime then None else Some pv)"
    if "distinct (Map_keys (pendingVerifications s))"
      and "Map_get (pendingVerifications s) e = Some pv" for e pv
    using that by (rule sweep_lookup)
  then show ?thesis
    by (simp add: expirySweep_pending sweepPending_subset sweepPending_filter)
qed

text \<open>
  A sweep 25 hours after the start removes the entry issued after half an hour and keeps
  the later one; a sweep at the moment the first entry is exactly 24 hours old keeps both.
\<close>

theorem expiry_sweep_frame_witness:
  "distinct (Map_keys (pendingVerifications ex_two_pending))
   \<and> pendingVerifications (new_state (expirySweep ex_two_pending 90000000))
       = [(''c@x.com'', \<lparr> token = ''t3'', timestamp = 50000000 \<rparr>)]
   \<and> pendingVerifications (new_state (expirySweep ex_two_pending 88200000))
       = pendingVerifications ex_two_pending"
proof -
  have d: "distinct (Map_keys (pendingVerifications ex_two_pending))"
    by (simp add: eval_defs)
  show ?thesis
    using d expiry_sweep_frame [of ex_two_pending 90000000]
      expiry_sweep_frame [of ex_two_pending 88200000]
    by (simp add: eval_defs)
qed

section \<open>Weather notifications\<close>








lemma pollWeatherAPI_ws_invariants:
  "weather_synced stringify s \<Longrightarrow>
   weather_synced stringify (new_state (pollWeatherAPI_ws stringify tr s a m resp))"
  "weather_parsed s \<Longrightarrow> weather_parsed (new_state (pollWeatherAPI_ws stringify tr s a m resp))"
  "subscriptions (new_state (pollWeatherAPI_ws stringify tr s a m resp)) = subscriptions s"
  by (auto simp add: weather_synced_def weather_parsed_def pollWeatherAPI_ws_def Let_def
        poll_done_def poll_failed_def split: fetched.splits option.splits)

text \<open>The other handlers of the WebSocket variant leave what the weather poll relies on.\<close>

lemma ws_handlers_keep_distinct:
  "distinct (Map_keys (subscriptions s)) \<Longrightarrow>
   distinct (Map_keys (subscriptions (new_state (subscribe_ws s rawEmail f))))"
  "distinct (Map_keys (subscriptions s)) \<Longrightarrow>
   distinct (Map_keys (subscriptions (new_state (unsub_ws s rawEmail))))"
  "subscriptions (new_state (verify_ws s email tok)) = subscriptions s"
  "subscriptions (new_state (onMessage stringify tr s msg)) = subscriptions s"
  by (auto simp add: subscribe_ws_def unsub_ws_def verify_ws_def onMessage_def Let_def split_def
        distinct_Map_set distinct_Map_delete split: option.splits fetched.splits)

lemma ws_handlers_keep_weather:
  "latestWeatherDataJSON (new_state (subscribe_ws s rawEmail f)) = latestWeatherDataJSON s"
  "latestWeatherDataObj (new_state (subscribe_ws s rawEmail f)) = latestWeatherDataObj s"
  "latestWeatherDataJSON (new_state (unsub_ws s rawEmail)) = latestWeatherDataJSON s"
  "latestWeatherDataObj (new_state (unsub_ws s rawEmail)) = latestWeatherDataObj s"
  "latestWeatherDataJSON (new_state (verify_ws s email tok)) = latestWeatherDataJSON s"
  "latestWeatherDataObj (new_state (verify_ws s email tok)) = latestWeatherDataObj s"
  "latestWeatherDataJSON (new_state (onMessage stringify tr s msg)) = latestWeatherDataJSON s"
  "latestWeatherDataObj (new_state (onMessage stringify tr s msg)) = latestWeatherDataObj s"
  by (auto simp add: subscribe_ws_def unsub_ws_def verify_ws_def onMessage_def Let_def split_def
        split: option.splits fetched.splits)








section \<open>Expiry of a pending verification\<close>




lemma ex_hourly_sweeps_schedule:
  "ex_hourly_sweeps = map (\<lambda>k. ExpirySweep (int k * sweepInterval)) [1..<25]"
  by (simp add: ex_hourly_sweeps_def sweepInterval_def upt_rec)





end
